theory Spec2Isabelle
  imports Main "HOL-Library.Word"
begin

section \<open>Script registry and hot-swap subsystem (ScriptMgr.cpp)\<close>

text \<open>
  A shallow embedding of the script registry of
  \<^verbatim>\<open>src/server/game/Scripting/ScriptMgr.cpp\<close>: the database bound and the
  database unbound \<^verbatim>\<open>SpecializedScriptRegistry\<close>, the swap hooks, the
  \<^verbatim>\<open>ScriptRegistryCompositum\<close> with its delayed delete queue, and the
  creature / game object AI swap of \<^verbatim>\<open>CreatureGameObjectScriptRegistrySwapHooks\<close>.
  Every \<^verbatim>\<open>ASSERT\<close> of the source is a branch that returns an error value.
\<close>

subsection \<open>Errors\<close>

datatype error =
    AssertionFailed string
  | Aborted string
  | NullPointerDereference

text \<open>Sequencing of fallible steps: the first error ends the run.\<close>

definition and_then :: "error + 'a \<Rightarrow> ('a \<Rightarrow> error + 'b) \<Rightarrow> error + 'b" where
  "and_then m f = (case m of Inl err \<Rightarrow> Inl err | Inr x \<Rightarrow> f x)"

subsection \<open>Script objects\<close>

text \<open>
  A \<^verbatim>\<open>ScriptObject*\<close>: the address of the instance (its identity), its name
  (\<^verbatim>\<open>GetName()\<close>) and the answer of its virtual \<^verbatim>\<open>IsAfterLoadDB()\<close>.
  A null pointer is not a value of this type, so \<^verbatim>\<open>ASSERT(script)\<close> always holds.
\<close>

record script_object =
  so_ptr :: nat
  so_name :: string
  so_after_load_db :: bool

subsection \<open>Live entities and their AI\<close>

text \<open>
  An AI instance attached to a creature or game object: the address of the instance
  and the script id of the entity it was constructed for.
\<close>

record ai_instance =
  ai_ptr :: nat
  ai_script_id :: "32 word"
  ai_initialized :: bool

text \<open>
  A \<^verbatim>\<open>Creature\<close> or \<^verbatim>\<open>GameObject\<close> of a map, with the state the swap hooks
  read and write. \<open>guid = 0\<close> is the empty \<^verbatim>\<open>ObjectGuid\<close>.
\<close>

record entity =
  guid :: nat
  script_id :: "32 word"
  ai :: "ai_instance option"
  alive :: bool
  charmed :: bool
  evade_state :: bool
  events :: "string list"

datatype object_type = Creature | GameObject

text \<open>
  The typed object store of a \<^verbatim>\<open>Map\<close>
  (\<^verbatim>\<open>std::unordered_map<ObjectGuid, ObjectType*>\<close> per object type): the stored
  objects, each found under its own guid.
\<close>

record game_map =
  creatures :: "entity list"
  gameobjects :: "entity list"

definition GetObjectsStore :: "object_type \<Rightarrow> game_map \<Rightarrow> entity list" where
  "GetObjectsStore ot m = (case ot of Creature \<Rightarrow> creatures m | GameObject \<Rightarrow> gameobjects m)"

definition SetObjectsStore :: "object_type \<Rightarrow> entity list \<Rightarrow> game_map \<Rightarrow> game_map" where
  "SetObjectsStore ot objs m =
     (case ot of Creature \<Rightarrow> m\<lparr>creatures := objs\<rparr> | GameObject \<Rightarrow> m\<lparr>gameobjects := objs\<rparr>)"

text \<open>\<^verbatim>\<open>map->GetCreature(guid)\<close> / \<^verbatim>\<open>map->GetGameObject(guid)\<close>.\<close>

definition GetEntityFromMap :: "entity list \<Rightarrow> nat \<Rightarrow> entity option" where
  "GetEntityFromMap objs g = find (\<lambda>obj. guid obj = g) objs"

text \<open>Writing through the pointer \<^verbatim>\<open>GetEntityFromMap\<close> returned.\<close>

fun StoreEntity :: "nat \<Rightarrow> entity \<Rightarrow> entity list \<Rightarrow> entity list" where
  "StoreEntity g e [] = []"
| "StoreEntity g e (obj # objs) =
     (if guid obj = g then e # objs else obj # StoreEntity g e objs)"

subsubsection \<open>Entity methods that are not part of ScriptMgr.cpp\<close>

text \<open>
  Modelled from the spec: \<^verbatim>\<open>Creature::AIM_Destroy\<close> / \<^verbatim>\<open>GameObject::AIM_Destroy\<close>
  (DetachBehavior): synchronously destroys the attached behavior; afterwards the
  entity has none. Destruction is infallible.
\<close>

definition AIM_Destroy :: "entity \<Rightarrow> bool \<times> entity" where
  "AIM_Destroy e = (True, e\<lparr>ai := None\<rparr>)"

text \<open>
  Modelled from the spec: \<^verbatim>\<open>Creature::AIM_Create\<close> / \<^verbatim>\<open>GameObject::AIM_Initialize\<close>
  (AttachFreshBehavior): constructs a fresh behavior from the entity's current id.
  \<open>n\<close> is the address the allocator hands out. Construction is infallible.
\<close>

definition AIM_Create :: "nat \<Rightarrow> entity \<Rightarrow> bool \<times> entity" where
  "AIM_Create n e =
     (True, e\<lparr>ai := Some \<lparr>ai_ptr = n, ai_script_id = script_id e, ai_initialized = False\<rparr>\<rparr>)"

text \<open>
  Modelled from the spec: \<^verbatim>\<open>Unit::RemoveCharmedBy(nullptr)\<close> clears the charm
  relationship; \<^verbatim>\<open>m_Events.KillAllEvents(false)\<close> removes the deletable events.
\<close>

definition RemoveCharmedBy :: "entity \<Rightarrow> entity" where
  "RemoveCharmedBy e = e\<lparr>charmed := False\<rparr>"

definition KillAllEvents :: "entity \<Rightarrow> entity" where
  "KillAllEvents e = e\<lparr>events := []\<rparr>"

text \<open>
  Modelled from the spec: \<^verbatim>\<open>AI()->EnterEvadeMode()\<close> (EnterDisengageTransition),
  a call through the AI pointer: undefined when the entity has no AI.
\<close>

definition EnterEvadeMode :: "entity \<Rightarrow> error + entity" where
  "EnterEvadeMode e =
     (case ai e of None \<Rightarrow> Inl NullPointerDereference
      | Some a \<Rightarrow> Inr (e\<lparr>evade_state := True\<rparr>))"

text \<open>Modelled from the spec: \<^verbatim>\<open>GameObjectAI::Reset()\<close>, a call through the AI pointer.\<close>

definition AI_Reset :: "entity \<Rightarrow> error + entity" where
  "AI_Reset e = (case ai e of None \<Rightarrow> Inl NullPointerDereference | Some a \<Rightarrow> Inr e)"

text \<open>
  Modelled from the spec: \<^verbatim>\<open>Creature::AI_InitializeAndEnable()\<close> fully initializes
  and enables the attached AI.
\<close>

definition AI_InitializeAndEnable :: "entity \<Rightarrow> error + entity" where
  "AI_InitializeAndEnable e =
     (case ai e of None \<Rightarrow> Inl NullPointerDereference
      | Some a \<Rightarrow> Inr (e\<lparr>ai := Some (a\<lparr>ai_initialized := True\<rparr>)\<rparr>))"

subsubsection \<open>The per-entity hooks of CreatureGameObjectScriptRegistrySwapHooks\<close>

definition UnloadResetScript :: "object_type \<Rightarrow> entity \<Rightarrow> error + entity" where
  "UnloadResetScript ot e =
     (case ot of
        Creature \<Rightarrow>
          (let e1 = KillAllEvents e;
               e2 = (if charmed e1 then RemoveCharmedBy e1 else e1)
           in if charmed e2
              then Inl (AssertionFailed ''There is a disabled AI which is still loaded.'')
              else if alive e2 then EnterEvadeMode e2 else Inr e2)
      | GameObject \<Rightarrow> AI_Reset e)"

definition UnloadDestroyScript :: "object_type \<Rightarrow> entity \<Rightarrow> error + entity" where
  "UnloadDestroyScript ot e =
     (case ot of
        Creature \<Rightarrow>
          (let (destroyed_ok, e1) = AIM_Destroy e
           in if \<not> destroyed_ok
              then Inl (AssertionFailed ''Destroying the AI should never fail here!'')
              else if ai e1 \<noteq> None
              then Inl (AssertionFailed ''The AI should be null here!'')
              else Inr e1)
      | GameObject \<Rightarrow>
          (let e1 = snd (AIM_Destroy e)
           in if ai e1 \<noteq> None
              then Inl (AssertionFailed ''The AI should be null here!'')
              else Inr e1))"

text \<open>The allocator's next free address is threaded through the construction.\<close>

definition LoadInitializeScript :: "object_type \<Rightarrow> nat \<Rightarrow> entity \<Rightarrow> error + (nat \<times> entity)" where
  "LoadInitializeScript ot n e =
     (if ai e \<noteq> None then Inl (AssertionFailed ''The AI should be null here!'')
      else case ot of
        Creature \<Rightarrow>
          (let e1 = (if alive e then e\<lparr>evade_state := False\<rparr> else e);
               (created, e2) = AIM_Create n e1
           in if \<not> created
              then Inl (AssertionFailed ''Creating the AI should never fail here!'')
              else Inr (Suc n, e2))
      | GameObject \<Rightarrow> Inr (Suc n, snd (AIM_Create n e)))"

definition LoadResetScript :: "object_type \<Rightarrow> entity \<Rightarrow> error + entity" where
  "LoadResetScript ot e =
     (case ot of
        Creature \<Rightarrow>
          (if \<not> alive e then Inr e
           else and_then (AI_InitializeAndEnable e) (\<lambda>e1.
                and_then (EnterEvadeMode e1) (\<lambda>e2.
                Inr (e2\<lparr>events := events e2 @ [''AsyncCastHotswapEffectEvent'']\<rparr>))))
      | GameObject \<Rightarrow> AI_Reset e)"

subsubsection \<open>Walking the maps\<close>

text \<open>
  \<^verbatim>\<open>VisitObjectsToSwapOnMap\<close>: calls the visitor on every stored object whose
  script id is in \<open>idsToRemove\<close>. The visitor's captures are its state \<open>st\<close>.
\<close>

fun VisitObjectsToSwapOnMap ::
  "32 word set \<Rightarrow> ('s \<Rightarrow> entity \<Rightarrow> error + ('s \<times> entity)) \<Rightarrow> 's \<Rightarrow> entity list
     \<Rightarrow> error + ('s \<times> entity list)" where
  "VisitObjectsToSwapOnMap idsToRemove visitor st [] = Inr (st, [])"
| "VisitObjectsToSwapOnMap idsToRemove visitor st (obj # objs) =
     (if script_id obj \<in> idsToRemove
      then and_then (visitor st obj) (\<lambda>(st1, obj1).
           and_then (VisitObjectsToSwapOnMap idsToRemove visitor st1 objs) (\<lambda>(st2, objs2).
           Inr (st2, obj1 # objs2)))
      else and_then (VisitObjectsToSwapOnMap idsToRemove visitor st objs) (\<lambda>(st2, objs2).
           Inr (st2, obj # objs2)))"

text \<open>The loop \<^verbatim>\<open>for (ObjectGuid const& guid : guidsToReset)\<close> of the destroy pass.\<close>

fun ResetGuids :: "object_type \<Rightarrow> nat list \<Rightarrow> entity list \<Rightarrow> error + entity list" where
  "ResetGuids ot [] objs = Inr objs"
| "ResetGuids ot (g # gs) objs =
     (case GetEntityFromMap objs g of
        None \<Rightarrow> ResetGuids ot gs objs
      | Some e \<Rightarrow>
          and_then (UnloadResetScript ot e) (\<lambda>e1. ResetGuids ot gs (StoreEntity g e1 objs)))"

definition DestroyScriptIdsOnMap :: "object_type \<Rightarrow> 32 word set \<Rightarrow> entity list \<Rightarrow> error + entity list" where
  "DestroyScriptIdsOnMap ot idsToRemove objs =
     and_then (VisitObjectsToSwapOnMap idsToRemove
                 (\<lambda>guidsToReset obj.
                    Inr (if ai obj \<noteq> None \<and> guid obj \<noteq> 0
                         then guidsToReset @ [guid obj] else guidsToReset, obj))
                 [] objs) (\<lambda>(guidsToReset, objs1).
     and_then (ResetGuids ot guidsToReset objs1) (\<lambda>objs2.
     and_then (VisitObjectsToSwapOnMap idsToRemove
                 (\<lambda>u obj. and_then (UnloadDestroyScript ot obj) (\<lambda>obj1. Inr (u, obj1)))
                 () objs2) (\<lambda>(u, objs3).
     Inr objs3)))"

text \<open>\<^verbatim>\<open>sMapMgr->DoForAllMaps\<close> with a worker that may allocate.\<close>

fun DoForAllMaps ::
  "(nat \<Rightarrow> game_map \<Rightarrow> error + (nat \<times> game_map)) \<Rightarrow> nat \<Rightarrow> game_map list
     \<Rightarrow> error + (nat \<times> game_map list)" where
  "DoForAllMaps worker n [] = Inr (n, [])"
| "DoForAllMaps worker n (m # ms) =
     and_then (worker n m) (\<lambda>(n1, m1).
     and_then (DoForAllMaps worker n1 ms) (\<lambda>(n2, ms2).
     Inr (n2, m1 # ms2)))"

definition DestroyScriptIdsFromSet ::
  "object_type \<Rightarrow> 32 word set \<Rightarrow> nat \<times> game_map list \<Rightarrow> error + (nat \<times> game_map list)" where
  "DestroyScriptIdsFromSet ot idsToRemove w =
     DoForAllMaps
       (\<lambda>n m. and_then (DestroyScriptIdsOnMap ot idsToRemove (GetObjectsStore ot m)) (\<lambda>objs.
               Inr (n, SetObjectsStore ot objs m)))
       (fst w) (snd w)"

text \<open>The loop \<^verbatim>\<open>for (ObjectGuid const& guid : guidsToReset)\<close> of the initialize pass.\<close>

fun InitGuids :: "object_type \<Rightarrow> nat list \<Rightarrow> nat \<Rightarrow> entity list \<Rightarrow> error + (nat \<times> entity list)" where
  "InitGuids ot [] n objs = Inr (n, objs)"
| "InitGuids ot (g # gs) n objs =
     (case GetEntityFromMap objs g of
        None \<Rightarrow> InitGuids ot gs n objs
      | Some e \<Rightarrow>
          and_then (if ai e = None then LoadInitializeScript ot n e else Inr (n, e)) (\<lambda>(n1, e1).
          and_then (LoadResetScript ot e1) (\<lambda>e2.
          InitGuids ot gs n1 (StoreEntity g e2 objs))))"

definition InitializeScriptIdsOnMap ::
  "object_type \<Rightarrow> 32 word set \<Rightarrow> nat \<Rightarrow> entity list \<Rightarrow> error + (nat \<times> entity list)" where
  "InitializeScriptIdsOnMap ot idsToRemove n objs =
     and_then (VisitObjectsToSwapOnMap idsToRemove
                 (\<lambda>(guidsToReset, k) obj.
                    if ai obj = None \<and> guid obj \<noteq> 0
                    then and_then (LoadInitializeScript ot k obj) (\<lambda>(k1, obj1).
                         Inr ((guidsToReset @ [guid obj], k1), obj1))
                    else Inr ((guidsToReset, k), obj))
                 ([], n) objs) (\<lambda>((guidsToReset, n1), objs1).
     InitGuids ot guidsToReset n1 objs1)"

definition InitializeScriptIdsFromSet ::
  "object_type \<Rightarrow> 32 word set \<Rightarrow> nat \<times> game_map list \<Rightarrow> error + (nat \<times> game_map list)" where
  "InitializeScriptIdsFromSet ot idsToRemove w =
     DoForAllMaps
       (\<lambda>n m. and_then (InitializeScriptIdsOnMap ot idsToRemove n (GetObjectsStore ot m))
                 (\<lambda>(n1, objs). Inr (n1, SetObjectsStore ot objs m)))
       (fst w) (snd w)"

subsection \<open>The process-wide singletons the registries talk to\<close>

text \<open>
  \<^verbatim>\<open>ScriptMgr::_currentContext\<close>; the compositum's delayed delete queue and its
  \<^verbatim>\<open>_scriptnames_to_context\<close>; the addresses whose destructor has run, in the order
  the destructors ran; the error log; the maps of \<^verbatim>\<open>sMapMgr\<close> with the allocator's
  next free address; whether \<^verbatim>\<open>sOutdoorPvPMgr\<close> is initialised; whether the chat
  command table is valid.
\<close>

record env =
  currentContext :: string
  delayed_delete_queue :: "script_object list"
  scriptnames_to_context :: "string \<rightharpoonup> string"
  destroyed :: "nat list"
  error_log :: "string list"
  world_maps :: "game_map list"
  next_ai :: nat
  outdoor_pvp_running :: bool
  command_table_valid :: bool

text \<open>
  Modelled from the spec: the macros \<^verbatim>\<open>ABORT_MSG\<close> and \<^verbatim>\<open>ABORT\<close> of Errors.h,
  which is not among the sources: they abort only in debug builds; with debug
  assertions off the message is logged and the run continues.
\<close>

definition ABORT_MSG :: "bool \<Rightarrow> string \<Rightarrow> env \<Rightarrow> error + env" where
  "ABORT_MSG debug_assertions msg e =
     (if debug_assertions then Inl (Aborted msg)
      else Inr (e\<lparr>error_log := error_log e @ [msg]\<rparr>))"

definition ABORT :: "bool \<Rightarrow> env \<Rightarrow> error + env" where
  "ABORT debug_assertions e = (if debug_assertions then Inl (Aborted []) else Inr e)"

definition LOG_ERROR :: "string \<Rightarrow> env \<Rightarrow> env" where
  "LOG_ERROR msg e = e\<lparr>error_log := error_log e @ [msg]\<rparr>"

subsection \<open>ScriptRegistryCompositum: name map and delayed delete queue\<close>

definition SetScriptNameInContext :: "string \<Rightarrow> string \<Rightarrow> env \<Rightarrow> error + env" where
  "SetScriptNameInContext scriptname ctx e =
     (if scriptnames_to_context e scriptname \<noteq> None
      then Inl (AssertionFailed ''Scriptname was assigned to this context already!'')
      else Inr (e\<lparr>scriptnames_to_context := (scriptnames_to_context e)(scriptname \<mapsto> ctx)\<rparr>))"

definition QueueForDelayedDelete :: "script_object \<Rightarrow> env \<Rightarrow> env" where
  "QueueForDelayedDelete any e = e\<lparr>delayed_delete_queue := delayed_delete_queue e @ [any]\<rparr>"

text \<open>Clearing the vector of \<^verbatim>\<open>unique_ptr\<close> runs the destructor of every queued object.\<close>

definition DoDelayedDelete :: "env \<Rightarrow> env" where
  "DoDelayedDelete e =
     e\<lparr>destroyed := destroyed e @ map so_ptr (delayed_delete_queue e),
       delayed_delete_queue := []\<rparr>"

subsection \<open>The database bound registry and its swap hooks\<close>

text \<open>
  Which \<^verbatim>\<open>ScriptRegistrySwapHooks\<close> specialisation the registry inherits:
  the empty default, \<^verbatim>\<open>UnsupportedScriptRegistrySwapHooks\<close> (BattlegroundScript),
  \<^verbatim>\<open>CreatureGameObjectScriptRegistrySwapHooks\<close> (CreatureScript, GameObjectScript),
  and the hooks of OutdoorPvPScript, InstanceMapScript and SpellScriptLoader.
\<close>

datatype hook_kind =
    NoHooks
  | UnsupportedHooks
  | CreatureGameObjectHooks object_type
  | OutdoorPvPHooks
  | InstanceMapHooks
  | SpellScriptLoaderHooks

text \<open>
  \<^verbatim>\<open>SpecializedScriptRegistry<ScriptType, true>\<close> with the state of its hook
  (\<^verbatim>\<open>ids_removed_\<close> of the creature / game object hook, \<^verbatim>\<open>swapped\<close> of the others).
  The unordered containers are lists; iteration is in list order.
\<close>

record bound_registry =
  hook :: hook_kind
  scripts :: "(32 word \<times> script_object) list"
  ids_of_contexts :: "(string \<times> 32 word) list"
  recently_added_ids :: "32 word set"
  alScripts :: "script_object list"
  ids_removed :: "32 word set"
  swapped :: bool

text \<open>\<^verbatim>\<open>_ids_of_contexts.equal_range(context)\<close>: the ids of the context's bucket.\<close>

definition equal_range :: "string \<Rightarrow> bound_registry \<Rightarrow> 32 word list" where
  "equal_range ctx r = map snd (filter (\<lambda>entry. fst entry = ctx) (ids_of_contexts r))"

definition GetScriptIDsToRemove :: "string \<Rightarrow> bound_registry \<Rightarrow> 32 word set" where
  "GetScriptIDsToRemove ctx r = set (equal_range ctx r)"

definition GetRecentlyAddedScriptIDs :: "bound_registry \<Rightarrow> 32 word set" where
  "GetRecentlyAddedScriptIDs r = recently_added_ids r"

definition GetScriptById :: "bound_registry \<Rightarrow> 32 word \<Rightarrow> script_object option" where
  "GetScriptById r sid = map_of (scripts r) sid"

definition BeforeReleaseContext ::
  "string \<Rightarrow> bound_registry \<Rightarrow> env \<Rightarrow> error + (bound_registry \<times> env)" where
  "BeforeReleaseContext ctx r e =
     (case hook r of
        NoHooks \<Rightarrow> Inr (r, e)
      | UnsupportedHooks \<Rightarrow>
          (if equal_range ctx r \<noteq> []
           then Inl (AssertionFailed ''bounds.first == bounds.second'')
           else Inr (r, e))
      | CreatureGameObjectHooks ot \<Rightarrow>
          (let idsToRemove = GetScriptIDsToRemove ctx r
           in and_then (DestroyScriptIdsFromSet ot idsToRemove (next_ai e, world_maps e))
                (\<lambda>(n, ms).
                   Inr (r\<lparr>ids_removed := ids_removed r \<union> idsToRemove\<rparr>,
                        e\<lparr>world_maps := ms, next_ai := n\<rparr>)))
      | OutdoorPvPHooks \<Rightarrow>
          (if \<not> swapped r \<and> equal_range ctx r \<noteq> []
           then Inr (r\<lparr>swapped := True\<rparr>, e\<lparr>outdoor_pvp_running := False\<rparr>)
           else Inr (r, e))
      | InstanceMapHooks \<Rightarrow>
          (if equal_range ctx r \<noteq> [] then Inr (r\<lparr>swapped := True\<rparr>, e) else Inr (r, e))
      | SpellScriptLoaderHooks \<Rightarrow>
          (if equal_range ctx r \<noteq> [] then Inr (r\<lparr>swapped := True\<rparr>, e) else Inr (r, e)))"

definition BeforeSwapContext ::
  "bool \<Rightarrow> bound_registry \<Rightarrow> env \<Rightarrow> error + (bound_registry \<times> env)" where
  "BeforeSwapContext initialize r e =
     (case hook r of
        NoHooks \<Rightarrow> Inr (r, e)
      | UnsupportedHooks \<Rightarrow> Inr (r, e)
      | CreatureGameObjectHooks ot \<Rightarrow>
          (if initialize then Inr (r, e)
           else
             (let r1 = r\<lparr>ids_removed := ids_removed r \<union> GetRecentlyAddedScriptIDs r\<rparr>
              in and_then (DestroyScriptIdsFromSet ot (ids_removed r1) (next_ai e, world_maps e))
                   (\<lambda>w1.
                 and_then (InitializeScriptIdsFromSet ot (ids_removed r1) w1)
                   (\<lambda>(n, ms).
                 Inr (r1\<lparr>ids_removed := {}\<rparr>, e\<lparr>world_maps := ms, next_ai := n\<rparr>)))))
      | OutdoorPvPHooks \<Rightarrow>
          (if \<not> initialize \<and> swapped r
           then Inr (r\<lparr>swapped := False\<rparr>, e\<lparr>outdoor_pvp_running := True\<rparr>)
           else Inr (r, e))
      | InstanceMapHooks \<Rightarrow> Inr (r\<lparr>swapped := False\<rparr>, e)
      | SpellScriptLoaderHooks \<Rightarrow>
          (if swapped r then Inr (r\<lparr>swapped := False\<rparr>, e) else Inr (r, e)))"

definition BeforeUnload :: "bound_registry \<Rightarrow> error + unit" where
  "BeforeUnload r =
     (case hook r of
        NoHooks \<Rightarrow> Inr ()
      | UnsupportedHooks \<Rightarrow> Inr ()
      | CreatureGameObjectHooks ot \<Rightarrow>
          (if ids_removed r \<noteq> {} then Inl (AssertionFailed ''ids_removed_.empty()'') else Inr ())
      | OutdoorPvPHooks \<Rightarrow> (if swapped r then Inl (AssertionFailed ''!swapped'') else Inr ())
      | InstanceMapHooks \<Rightarrow> (if swapped r then Inl (AssertionFailed ''!swapped'') else Inr ())
      | SpellScriptLoaderHooks \<Rightarrow>
          (if swapped r then Inl (AssertionFailed ''!swapped'') else Inr ()))"

text \<open>
  \<^verbatim>\<open>_scripts.erase(id)\<close>: the entry goes, and the \<^verbatim>\<open>unique_ptr\<close> it held destroys
  the script.
\<close>

definition erase_script ::
  "32 word \<Rightarrow> (32 word \<times> script_object) list \<times> nat list
     \<Rightarrow> (32 word \<times> script_object) list \<times> nat list" where
  "erase_script sid st =
     (filter (\<lambda>entry. fst entry \<noteq> sid) (fst st),
      snd st @ map (\<lambda>entry. so_ptr (snd entry)) (filter (\<lambda>entry. fst entry = sid) (fst st)))"

definition ReleaseContext ::
  "string \<Rightarrow> bound_registry \<Rightarrow> env \<Rightarrow> error + (bound_registry \<times> env)" where
  "ReleaseContext ctx r e =
     and_then (BeforeReleaseContext ctx r e) (\<lambda>(r1, e1).
       (let st = fold erase_script (equal_range ctx r1) (scripts r1, destroyed e1)
        in Inr (r1\<lparr>scripts := fst st\<rparr>, e1\<lparr>destroyed := snd st\<rparr>)))"

definition SwapContext ::
  "bool \<Rightarrow> bound_registry \<Rightarrow> env \<Rightarrow> error + (bound_registry \<times> env)" where
  "SwapContext initialize r e =
     and_then (BeforeSwapContext initialize r e) (\<lambda>(r1, e1).
       Inr (r1\<lparr>recently_added_ids := {}\<rparr>, e1))"

definition Unload :: "bound_registry \<Rightarrow> env \<Rightarrow> error + (bound_registry \<times> env)" where
  "Unload r e =
     and_then (BeforeUnload r) (\<lambda>u.
       if recently_added_ids r \<noteq> {}
       then Inl (AssertionFailed ''Recently added script ids should be empty here!'')
       else Inr (r\<lparr>scripts := [], ids_of_contexts := []\<rparr>,
                 e\<lparr>destroyed := destroyed e @ map (\<lambda>entry. so_ptr (snd entry)) (scripts r)\<rparr>))"

text \<open>
  \<^verbatim>\<open>AddScript\<close> of the database bound registry. \<open>GetScriptId\<close> is
  \<^verbatim>\<open>sObjectMgr->GetScriptId\<close> (the content table, not part of the sources);
  id 0 is "not assigned". \<^verbatim>\<open>script_ptr\<close> owns the script until it is moved from:
  where the function returns without moving it, the script is destroyed on return;
  \<^verbatim>\<open>unordered_map::insert\<close> keeps an existing entry, and the pair that was not
  inserted destroys the script it holds.
\<close>

definition AddScript ::
  "bool \<Rightarrow> (string \<Rightarrow> 32 word) \<Rightarrow> script_object \<Rightarrow> bound_registry \<Rightarrow> env
     \<Rightarrow> error + (bound_registry \<times> env)" where
  "AddScript debug_assertions GetScriptId script r e =
     (if currentContext e = []
      then Inl (AssertionFailed
                 ''Tried to register a script without being in a valid script context!'')
      else
        (let sid = GetScriptId (so_name script) in
         if sid \<noteq> 0 then
           (if list_ex (\<lambda>stored_script. so_name (snd stored_script) = so_name script) (scripts r)
            then
              and_then (ABORT_MSG debug_assertions
                          (''Script already assigned with the same script name: '' @ so_name script) e)
                (\<lambda>e1.
              and_then (ABORT debug_assertions (QueueForDelayedDelete script e1))
                (\<lambda>e2. Inr (r, e2)))
            else if so_after_load_db script
            then Inr (r\<lparr>alScripts := alScripts r @ [script]\<rparr>,
                      e\<lparr>destroyed := destroyed e @ [so_ptr script]\<rparr>)
            else
              (let present = (sid \<in> fst ` set (scripts r));
                   r1 = r\<lparr>scripts := (if present then scripts r else scripts r @ [(sid, script)]),
                          ids_of_contexts := ids_of_contexts r @ [(currentContext e, sid)],
                          recently_added_ids := insert sid (recently_added_ids r)\<rparr>;
                   e1 = (if present then e\<lparr>destroyed := destroyed e @ [so_ptr script]\<rparr> else e)
               in and_then (SetScriptNameInContext (so_name script) (currentContext e1) e1)
                    (\<lambda>e2. Inr (r1, e2))))
         else
           Inr (r, QueueForDelayedDelete script
                     (LOG_ERROR (''Script exists in the core, but the database does not assign it: ''
                                   @ so_name script) e))))"

text \<open>
  \<^verbatim>\<open>AddALScripts\<close>: the range-for runs over the elements the vector held when the
  loop started; \<^verbatim>\<open>AddScript\<close> may push onto the vector meanwhile; at the end the
  vector is cleared.
\<close>

fun AddScripts ::
  "bool \<Rightarrow> (string \<Rightarrow> 32 word) \<Rightarrow> script_object list \<Rightarrow> bound_registry \<Rightarrow> env
     \<Rightarrow> error + (bound_registry \<times> env)" where
  "AddScripts debug_assertions GetScriptId [] r e = Inr (r, e)"
| "AddScripts debug_assertions GetScriptId (itr # rest) r e =
     and_then (AddScript debug_assertions GetScriptId itr r e) (\<lambda>(r1, e1).
       AddScripts debug_assertions GetScriptId rest r1 e1)"

definition AddALScripts ::
  "bool \<Rightarrow> (string \<Rightarrow> 32 word) \<Rightarrow> bound_registry \<Rightarrow> env \<Rightarrow> error + (bound_registry \<times> env)" where
  "AddALScripts debug_assertions GetScriptId r e =
     (if alScripts r = [] then Inr (r, e)
      else and_then (AddScripts debug_assertions GetScriptId (alScripts r) r e) (\<lambda>(r1, e1).
             Inr (r1\<lparr>alScripts := []\<rparr>, e1)))"

subsection \<open>The database unbound registry\<close>

text \<open>
  \<^verbatim>\<open>SpecializedScriptRegistry<ScriptType, false>\<close>: a multimap from the context
  to the scripts it owns. Its hooks are the empty default or those of CommandScript,
  which invalidate the chat command table.
\<close>

datatype unbound_hook_kind = UnboundNoHooks | CommandHooks

record unbound_registry =
  u_hook :: unbound_hook_kind
  u_scripts :: "(string \<times> script_object) list"
  u_alScripts :: "script_object list"

definition InvalidateCommandTable :: "unbound_hook_kind \<Rightarrow> env \<Rightarrow> env" where
  "InvalidateCommandTable h e =
     (case h of UnboundNoHooks \<Rightarrow> e | CommandHooks \<Rightarrow> e\<lparr>command_table_valid := False\<rparr>)"

definition Unbound_ReleaseContext ::
  "string \<Rightarrow> unbound_registry \<Rightarrow> env \<Rightarrow> error + (unbound_registry \<times> env)" where
  "Unbound_ReleaseContext ctx u e =
     (let e1 = InvalidateCommandTable (u_hook u) e
      in Inr (u\<lparr>u_scripts := filter (\<lambda>entry. fst entry \<noteq> ctx) (u_scripts u)\<rparr>,
              e1\<lparr>destroyed := destroyed e1 @
                   map (\<lambda>entry. so_ptr (snd entry))
                     (filter (\<lambda>entry. fst entry = ctx) (u_scripts u))\<rparr>))"

definition Unbound_SwapContext ::
  "bool \<Rightarrow> unbound_registry \<Rightarrow> env \<Rightarrow> error + (unbound_registry \<times> env)" where
  "Unbound_SwapContext initialize u e = Inr (u, InvalidateCommandTable (u_hook u) e)"

definition Unbound_AddScript ::
  "script_object \<Rightarrow> unbound_registry \<Rightarrow> env \<Rightarrow> error + (unbound_registry \<times> env)" where
  "Unbound_AddScript script u e =
     (if currentContext e = []
      then Inl (AssertionFailed
                 ''Tried to register a script without being in a valid script context!'')
      else if list_ex (\<lambda>entry. so_ptr (snd entry) = so_ptr script) (u_scripts u)
      then Inr (u, QueueForDelayedDelete script
                     (LOG_ERROR (''Script has same memory pointer as another: '' @ so_name script) e))
      else if so_after_load_db script
      then Inr (u\<lparr>u_alScripts := u_alScripts u @ [script]\<rparr>,
                e\<lparr>destroyed := destroyed e @ [so_ptr script]\<rparr>)
      else Inr (u\<lparr>u_scripts := u_scripts u @ [(currentContext e, script)]\<rparr>, e))"

subsection \<open>ScriptRegistryCompositum and ScriptMgr\<close>

datatype registry = DatabaseBound bound_registry | DatabaseUnbound unbound_registry

text \<open>The registered registries and the singletons they share.\<close>

record system =
  registries :: "registry list"
  genv :: env

definition Registry_ReleaseContext :: "string \<Rightarrow> registry \<Rightarrow> env \<Rightarrow> error + (registry \<times> env)" where
  "Registry_ReleaseContext ctx reg e =
     (case reg of
        DatabaseBound r \<Rightarrow>
          and_then (ReleaseContext ctx r e) (\<lambda>(r1, e1). Inr (DatabaseBound r1, e1))
      | DatabaseUnbound u \<Rightarrow>
          and_then (Unbound_ReleaseContext ctx u e) (\<lambda>(u1, e1). Inr (DatabaseUnbound u1, e1)))"

definition Registry_SwapContext :: "bool \<Rightarrow> registry \<Rightarrow> env \<Rightarrow> error + (registry \<times> env)" where
  "Registry_SwapContext initialize reg e =
     (case reg of
        DatabaseBound r \<Rightarrow>
          and_then (SwapContext initialize r e) (\<lambda>(r1, e1). Inr (DatabaseBound r1, e1))
      | DatabaseUnbound u \<Rightarrow>
          and_then (Unbound_SwapContext initialize u e) (\<lambda>(u1, e1). Inr (DatabaseUnbound u1, e1)))"

text \<open>\<^verbatim>\<open>for (auto const registry : _registries) registry->...\<close>\<close>

fun ForEachRegistry ::
  "(registry \<Rightarrow> env \<Rightarrow> error + (registry \<times> env)) \<Rightarrow> registry list \<Rightarrow> env
     \<Rightarrow> error + (registry list \<times> env)" where
  "ForEachRegistry f [] e = Inr ([], e)"
| "ForEachRegistry f (reg # regs) e =
     and_then (f reg e) (\<lambda>(reg1, e1).
     and_then (ForEachRegistry f regs e1) (\<lambda>(regs1, e2).
     Inr (reg1 # regs1, e2)))"

text \<open>The erase loop over \<^verbatim>\<open>_scriptnames_to_context\<close>.\<close>

definition erase_names_of_context :: "string \<Rightarrow> (string \<rightharpoonup> string) \<Rightarrow> (string \<rightharpoonup> string)" where
  "erase_names_of_context ctx names =
     (\<lambda>scriptname. if names scriptname = Some ctx then None else names scriptname)"

definition Compositum_ReleaseContext :: "string \<Rightarrow> system \<Rightarrow> error + system" where
  "Compositum_ReleaseContext ctx s =
     and_then (ForEachRegistry (Registry_ReleaseContext ctx) (registries s) (genv s))
       (\<lambda>(regs, e1).
          Inr \<lparr>registries = regs,
               genv = e1\<lparr>scriptnames_to_context :=
                           erase_names_of_context ctx (scriptnames_to_context e1)\<rparr>\<rparr>)"

definition Compositum_SwapContext :: "bool \<Rightarrow> system \<Rightarrow> error + system" where
  "Compositum_SwapContext initialize s =
     and_then (ForEachRegistry (Registry_SwapContext initialize) (registries s) (genv s))
       (\<lambda>(regs, e1). Inr \<lparr>registries = regs, genv = DoDelayedDelete e1\<rparr>)"

definition SetScriptContext :: "string \<Rightarrow> env \<Rightarrow> env" where
  "SetScriptContext ctx e = e\<lparr>currentContext := ctx\<rparr>"

definition SwapScriptContext :: "bool \<Rightarrow> system \<Rightarrow> error + system" where
  "SwapScriptContext initialize s =
     and_then (Compositum_SwapContext initialize s) (\<lambda>s1.
       Inr (s1\<lparr>genv := (genv s1)\<lparr>currentContext := []\<rparr>\<rparr>))"

definition ReleaseScriptContext :: "string \<Rightarrow> system \<Rightarrow> error + system" where
  "ReleaseScriptContext ctx s = Compositum_ReleaseContext ctx s"

subsection \<open>Runs of registry operations\<close>

text \<open>
  A script constructor registers itself with the registry of its type
  (\<^verbatim>\<open>ScriptRegistry<T>::Instance()->AddScript(this)\<close>); the registry is named here by
  its position among the registered registries. The position of a registry that
  does not exist names nothing, and the call does nothing.
\<close>

definition System_AddScript ::
  "bool \<Rightarrow> (string \<Rightarrow> 32 word) \<Rightarrow> nat \<Rightarrow> script_object \<Rightarrow> system \<Rightarrow> error + system" where
  "System_AddScript debug_assertions GetScriptId i script s =
     (if i < length (registries s) then
        (case registries s ! i of
           DatabaseBound r \<Rightarrow>
             and_then (AddScript debug_assertions GetScriptId script r (genv s)) (\<lambda>(r1, e1).
               Inr \<lparr>registries = (registries s)[i := DatabaseBound r1], genv = e1\<rparr>)
         | DatabaseUnbound u \<Rightarrow>
             and_then (Unbound_AddScript script u (genv s)) (\<lambda>(u1, e1).
               Inr \<lparr>registries = (registries s)[i := DatabaseUnbound u1], genv = e1\<rparr>))
      else Inr s)"

text \<open>
  The operations a script loader performs: a registration under a context (the
  context is set, then the script's constructor runs), the release of a context, a swap.
\<close>

datatype script_op =
    OpAddScript nat string script_object
  | OpReleaseContext string
  | OpSwapContext bool

fun apply_op :: "bool \<Rightarrow> (string \<Rightarrow> 32 word) \<Rightarrow> script_op \<Rightarrow> system \<Rightarrow> error + system" where
  "apply_op dbg gsi (OpAddScript i ctx script) s =
     System_AddScript dbg gsi i script (s\<lparr>genv := SetScriptContext ctx (genv s)\<rparr>)"
| "apply_op dbg gsi (OpReleaseContext ctx) s = ReleaseScriptContext ctx s"
| "apply_op dbg gsi (OpSwapContext initialize) s = SwapScriptContext initialize s"

fun run_ops :: "bool \<Rightarrow> (string \<Rightarrow> 32 word) \<Rightarrow> script_op list \<Rightarrow> system \<Rightarrow> error + system" where
  "run_ops dbg gsi [] s = Inr s"
| "run_ops dbg gsi (op # ops) s = and_then (apply_op dbg gsi op s) (run_ops dbg gsi ops)"


subsection \<open>Relations between an entity before and after a pass\<close>

text \<open>
  What a reset (\<^verbatim>\<open>UnloadResetScript\<close>, \<^verbatim>\<open>LoadResetScript\<close>) may change of an entity
  whose script id is in \<open>ids\<close>: anything but its guid, its script id, whether it is
  alive, and which AI instance it has. Entities of other ids are not changed.
\<close>

definition touched :: "32 word set \<Rightarrow> entity \<Rightarrow> entity \<Rightarrow> bool" where
  "touched ids e e' \<longleftrightarrow>
     guid e' = guid e \<and> script_id e' = script_id e \<and> alive e' = alive e
     \<and> map_option ai_ptr (ai e') = map_option ai_ptr (ai e)
     \<and> map_option ai_script_id (ai e') = map_option ai_script_id (ai e)
     \<and> (script_id e \<in> ids \<or> e' = e)"

text \<open>After \<^verbatim>\<open>DestroyScriptIdsFromSet\<close>: an entity whose id is in the set has no AI.\<close>

definition after_destroy :: "32 word set \<Rightarrow> entity \<Rightarrow> entity \<Rightarrow> bool" where
  "after_destroy ids e e' \<longleftrightarrow>
     guid e' = guid e \<and> script_id e' = script_id e \<and> alive e' = alive e
     \<and> (if script_id e \<in> ids then ai e' = None else e' = e)"

text \<open>
  After the visit of \<^verbatim>\<open>InitializeScriptIdsFromSet\<close>: an entity of the set without AI
  and with a guid has an AI allocated at or after address \<open>n\<close>, constructed for its
  script id.
\<close>

definition after_init_visit :: "32 word set \<Rightarrow> nat \<Rightarrow> entity \<Rightarrow> entity \<Rightarrow> bool" where
  "after_init_visit ids n e e' \<longleftrightarrow>
     guid e' = guid e \<and> script_id e' = script_id e \<and> alive e' = alive e
     \<and> (if script_id e \<in> ids \<and> ai e = None \<and> guid e \<noteq> 0
        then (case ai e' of None \<Rightarrow> False
              | Some a \<Rightarrow> n \<le> ai_ptr a \<and> ai_script_id a = script_id e)
        else e' = e)"

text \<open>After \<^verbatim>\<open>InitializeScriptIdsFromSet\<close>.\<close>

definition after_initialize :: "32 word set \<Rightarrow> nat \<Rightarrow> entity \<Rightarrow> entity \<Rightarrow> bool" where
  "after_initialize ids n e e' \<longleftrightarrow>
     guid e' = guid e \<and> script_id e' = script_id e
     \<and> (if script_id e \<in> ids
        then (if ai e = None \<and> guid e \<noteq> 0
              then (case ai e' of None \<Rightarrow> False
                    | Some a \<Rightarrow> n \<le> ai_ptr a \<and> ai_script_id a = script_id e)
              else map_option ai_ptr (ai e') = map_option ai_ptr (ai e))
        else e' = e)"

text \<open>
  After the destroy pass and the initialize pass over \<open>removed\<close>, where \<open>n\<close> was the
  allocator's next free address before: an entity whose script id is in
  \<open>removed\<close> has no AI if its guid is empty, and otherwise an AI that was allocated
  during the passes and constructed for the entity's script id; every other entity
  is unchanged.
\<close>

definition entity_after_swap :: "32 word set \<Rightarrow> nat \<Rightarrow> entity \<Rightarrow> entity \<Rightarrow> bool" where
  "entity_after_swap removed n e e' \<longleftrightarrow>
     guid e' = guid e \<and> script_id e' = script_id e
     \<and> (if script_id e \<in> removed
        then (if guid e = 0 then ai e' = None
              else (case ai e' of None \<Rightarrow> False
                    | Some a \<Rightarrow> n \<le> ai_ptr a \<and> ai_script_id a = script_id e))
        else e' = e)"

text \<open>
  Two maps whose stores of type \<open>ot\<close> are related entity by entity and that agree in
  everything else.
\<close>

definition store_rel ::
  "(entity \<Rightarrow> entity \<Rightarrow> bool) \<Rightarrow> object_type \<Rightarrow> game_map \<Rightarrow> game_map \<Rightarrow> bool" where
  "store_rel R ot m m' \<longleftrightarrow>
     m' = SetObjectsStore ot (GetObjectsStore ot m') m
     \<and> list_all2 R (GetObjectsStore ot m) (GetObjectsStore ot m')"

text \<open>The keys of an object store are unique: no two stored objects share a guid.\<close>

definition well_formed_stores :: "object_type \<Rightarrow> game_map list \<Rightarrow> bool" where
  "well_formed_stores ot ms = list_all (\<lambda>m. distinct (map guid (GetObjectsStore ot m))) ms"





subsection \<open>Ownership and invariants of the registries\<close>

text \<open>The addresses of the scripts a registry owns.\<close>

definition owned_ptrs :: "registry \<Rightarrow> nat set" where
  "owned_ptrs reg =
     (case reg of
        DatabaseBound r \<Rightarrow> (\<lambda>entry. so_ptr (snd entry)) ` set (scripts r)
      | DatabaseUnbound u \<Rightarrow> (\<lambda>entry. so_ptr (snd entry)) ` set (u_scripts u))"

text \<open>
  A registry after a swap: no recently added ids, no removed ids waiting, no pending
  restart; for the command registry, the command table is invalidated.
\<close>

definition settled :: "registry \<Rightarrow> env \<Rightarrow> bool" where
  "settled reg e =
     (case reg of
        DatabaseBound r \<Rightarrow>
          recently_added_ids r = {}
          \<and> (case hook r of
               NoHooks \<Rightarrow> True
             | UnsupportedHooks \<Rightarrow> True
             | CreatureGameObjectHooks ot \<Rightarrow> ids_removed r = {}
             | OutdoorPvPHooks \<Rightarrow> \<not> swapped r
             | InstanceMapHooks \<Rightarrow> \<not> swapped r
             | SpellScriptLoaderHooks \<Rightarrow> \<not> swapped r)
      | DatabaseUnbound u \<Rightarrow>
          (case u_hook u of UnboundNoHooks \<Rightarrow> True | CommandHooks \<Rightarrow> \<not> command_table_valid e))"










subsection \<open>Concrete registries, scripts and worlds\<close>

definition empty_registry :: "hook_kind \<Rightarrow> bound_registry" where
  "empty_registry h =
     \<lparr>hook = h, scripts = [], ids_of_contexts = [], recently_added_ids = {},
      alScripts = [], ids_removed = {}, swapped = False\<rparr>"

definition empty_env :: env where
  "empty_env =
     \<lparr>currentContext = [], delayed_delete_queue = [], scriptnames_to_context = Map.empty,
      destroyed = [], error_log = [], world_maps = [], next_ai = 0,
      outdoor_pvp_running = True, command_table_valid = True\<rparr>"

text \<open>A content table that assigns ids to two script names.\<close>

definition demo_ids :: "string \<Rightarrow> 32 word" where
  "demo_ids name = (if name = ''npc_a'' then 1 else if name = ''npc_b'' then 2 else 0)"

definition script_a :: script_object where
  "script_a = \<lparr>so_ptr = 100, so_name = ''npc_a'', so_after_load_db = False\<rparr>"

definition script_a_again :: script_object where
  "script_a_again = \<lparr>so_ptr = 101, so_name = ''npc_a'', so_after_load_db = False\<rparr>"

definition script_a_new :: script_object where
  "script_a_new = \<lparr>so_ptr = 104, so_name = ''npc_a'', so_after_load_db = False\<rparr>"

definition script_b :: script_object where
  "script_b = \<lparr>so_ptr = 102, so_name = ''npc_b'', so_after_load_db = False\<rparr>"

definition script_al :: script_object where
  "script_al = \<lparr>so_ptr = 103, so_name = ''npc_a'', so_after_load_db = True\<rparr>"

text \<open>The registry and the singletons after \<open>script_a\<close> was registered under "mod1".\<close>

definition registry_with_a :: bound_registry where
  "registry_with_a =
     (empty_registry NoHooks)\<lparr>scripts := [(1, script_a)], ids_of_contexts := [(''mod1'', 1)],
        recently_added_ids := {1}\<rparr>"

definition env_with_a :: env where
  "env_with_a =
     empty_env\<lparr>currentContext := ''mod1'', scriptnames_to_context := [''npc_a'' \<mapsto> ''mod1'']\<rparr>"

text \<open>A BattlegroundScript registry that holds an id of context "mod1".\<close>

definition battleground_registry :: bound_registry where
  "battleground_registry = (empty_registry UnsupportedHooks)\<lparr>ids_of_contexts := [(''mod1'', 1)]\<rparr>"

text \<open>A CommandScript registry that holds \<open>script_b\<close>.\<close>

definition command_registry :: unbound_registry where
  "command_registry =
     \<lparr>u_hook = CommandHooks, u_scripts = [(''mod1'', script_b)], u_alScripts = []\<rparr>"

text \<open>
  A world of three creatures: one attached to an AI of script id 1, one attached to
  an AI of script id 2, one of script id 1 without AI. The allocator's next free
  address is 2.
\<close>

definition creature_attached :: entity where
  "creature_attached =
     \<lparr>guid = 1, script_id = 1,
      ai = Some \<lparr>ai_ptr = 0, ai_script_id = 1, ai_initialized = True\<rparr>,
      alive = True, charmed = True, evade_state = False, events = [''pending'']\<rparr>"

definition creature_untouched :: entity where
  "creature_untouched =
     \<lparr>guid = 2, script_id = 2,
      ai = Some \<lparr>ai_ptr = 1, ai_script_id = 2, ai_initialized = True\<rparr>,
      alive = True, charmed = False, evade_state = False, events = []\<rparr>"

definition creature_unattached :: entity where
  "creature_unattached =
     \<lparr>guid = 3, script_id = 1, ai = None,
      alive = False, charmed = False, evade_state = False, events = []\<rparr>"

definition demo_map :: game_map where
  "demo_map =
     \<lparr>creatures = [creature_attached, creature_untouched, creature_unattached],
      gameobjects = []\<rparr>"

definition creature_registry :: bound_registry where
  "creature_registry = registry_with_a\<lparr>hook := CreatureGameObjectHooks Creature\<rparr>"


definition world_env :: env where
  "world_env = env_with_a\<lparr>world_maps := [demo_map], next_ai := 2\<rparr>"


definition demo_map_swapped :: game_map where
  "demo_map_swapped =
     \<lparr>creatures =
        [\<lparr>guid = 1, script_id = 1,
          ai = Some \<lparr>ai_ptr = 2, ai_script_id = 1, ai_initialized = True\<rparr>,
          alive = True, charmed = False, evade_state = True,
          events = [''AsyncCastHotswapEffectEvent'']\<rparr>,
         creature_untouched,
         \<lparr>guid = 3, script_id = 1,
          ai = Some \<lparr>ai_ptr = 3, ai_script_id = 1, ai_initialized = False\<rparr>,
          alive = False, charmed = False, evade_state = False, events = []\<rparr>],
      gameobjects = []\<rparr>"

text \<open>A system with the creature registry, the command registry and a queued script.\<close>

definition swap_system :: system where
  "swap_system =
     \<lparr>registries = [DatabaseBound creature_registry, DatabaseUnbound command_registry],
      genv = world_env\<lparr>delayed_delete_queue := [script_a_again]\<rparr>\<rparr>"

definition swap_system_settled :: system where
  "swap_system_settled =
     \<lparr>registries =
        [DatabaseBound (creature_registry\<lparr>ids_removed := {}, recently_added_ids := {}\<rparr>),
         DatabaseUnbound command_registry],
      genv = world_env\<lparr>world_maps := [demo_map_swapped], next_ai := 4,
               command_table_valid := False, destroyed := [so_ptr script_a_again]\<rparr>\<rparr>"

definition one_registry_system :: system where
  "one_registry_system =
     \<lparr>registries = [DatabaseBound (empty_registry NoHooks)], genv = empty_env\<rparr>"

text \<open>A system with a database bound registry and the CommandScript registry, both empty.\<close>

definition empty_command_registry :: unbound_registry where
  "empty_command_registry = \<lparr>u_hook = CommandHooks, u_scripts = [], u_alScripts = []\<rparr>"

definition two_registry_system :: system where
  "two_registry_system =
     \<lparr>registries = [DatabaseBound (empty_registry NoHooks), DatabaseUnbound empty_command_registry],
      genv = empty_env\<rparr>"







section \<open>Verification\<close>

subsection \<open>Sequencing\<close>

lemma and_then_Inr [simp]: "and_then (Inr x) f = f x"
  by (simp add: and_then_def)

lemma and_then_Inl [simp]: "and_then (Inl err) f = Inl err"
  by (simp add: and_then_def)

lemma and_then_eq_Inr: "and_then m f = Inr y \<longleftrightarrow> (\<exists>x. m = Inr x \<and> f x = Inr y)"
  by (cases m) simp_all

subsection \<open>Reject-only categories\<close>

lemma equal_range_empty_iff:
  "equal_range ctx r = [] \<longleftrightarrow> (\<forall>sid. (ctx, sid) \<notin> set (ids_of_contexts r))"
  by (auto simp: equal_range_def filter_empty_conv)

text \<open>
  Claim C8. For a registry with the hooks of a category that is never hot-swapped
  (\<^verbatim>\<open>UnsupportedScriptRegistrySwapHooks\<close>, used by BattlegroundScript):
  \<^verbatim>\<open>ReleaseContext(ctx)\<close> fails the assertion when at least one id is registered
  under \<open>ctx\<close>, and returns with the registry and the singletons unchanged when none is.
\<close>

theorem unsupported_ReleaseContext:
  assumes "hook r = UnsupportedHooks"
  shows "((\<exists>sid. (ctx, sid) \<in> set (ids_of_contexts r)) \<longrightarrow>
            ReleaseContext ctx r e = Inl (AssertionFailed ''bounds.first == bounds.second''))
       \<and> ((\<forall>sid. (ctx, sid) \<notin> set (ids_of_contexts r)) \<longrightarrow>
            ReleaseContext ctx r e = Inr (r, e))"
proof (intro conjI impI)
  assume "\<exists>sid. (ctx, sid) \<in> set (ids_of_contexts r)"
  then have "equal_range ctx r \<noteq> []" by (simp add: equal_range_empty_iff)
  with assms show "ReleaseContext ctx r e = Inl (AssertionFailed ''bounds.first == bounds.second'')"
    by (simp add: ReleaseContext_def BeforeReleaseContext_def)
next
  assume "\<forall>sid. (ctx, sid) \<notin> set (ids_of_contexts r)"
  then have "equal_range ctx r = []" by (simp add: equal_range_empty_iff)
  with assms show "ReleaseContext ctx r e = Inr (r, e)"
    by (simp add: ReleaseContext_def BeforeReleaseContext_def)
qed

theorem unsupported_ReleaseContext_witness:
  "ReleaseContext ''mod1'' battleground_registry empty_env
     = Inl (AssertionFailed ''bounds.first == bounds.second'')
   \<and> ReleaseContext ''mod2'' battleground_registry empty_env
     = Inr (battleground_registry, empty_env)"
  using unsupported_ReleaseContext [of battleground_registry "''mod1''" empty_env]
        unsupported_ReleaseContext [of battleground_registry "''mod2''" empty_env]
  by (simp add: battleground_registry_def empty_registry_def)

subsection \<open>Duplicate registration\<close>

lemma map_of_Some_list_ex:
  "map_of xs k = Some v \<Longrightarrow> list_ex (\<lambda>entry. P (snd entry)) xs \<or> \<not> P v"
  by (induction xs) (auto split: if_splits)

lemma AddScript_Inr_context:
  "AddScript dbg gsi script r e = Inr (r1, e1) \<Longrightarrow>
     currentContext e \<noteq> [] \<and> currentContext e1 = currentContext e"
  by (auto simp: AddScript_def Let_def ABORT_MSG_def ABORT_def QueueForDelayedDelete_def
        LOG_ERROR_def SetScriptNameInContext_def and_then_eq_Inr split: if_splits)

text \<open>
  Claim C3. A first instance was registered by \<^verbatim>\<open>AddScript\<close> and is what
  \<^verbatim>\<open>GetScriptById\<close> returns for its id. A second \<^verbatim>\<open>AddScript\<close> in the same
  context with an instance of the same name, with debug assertions off: the call
  returns, the registry is unchanged (the first instance is still what
  \<^verbatim>\<open>GetScriptById\<close> returns), the error is logged, the second instance is appended
  to the delayed delete queue, and no destructor has run. With debug assertions on
  the call aborts. The theorem holds for any second instance, so for a distinct one.
\<close>

theorem duplicate_name_rejected:
  assumes first_added: "AddScript dbg GetScriptId first r0 e0 = Inr (r1, e1)"
    and registered: "GetScriptById r1 (GetScriptId (so_name first)) = Some first"
    and assigned: "GetScriptId (so_name first) \<noteq> 0"
    and same_name: "so_name second = so_name first"
  shows "AddScript False GetScriptId second r1 e1 =
           Inr (r1, e1\<lparr>error_log := error_log e1 @
                          [''Script already assigned with the same script name: '' @ so_name second],
                        delayed_delete_queue := delayed_delete_queue e1 @ [second]\<rparr>)
       \<and> GetScriptById r1 (GetScriptId (so_name second)) = Some first
       \<and> AddScript True GetScriptId second r1 e1 =
           Inl (Aborted (''Script already assigned with the same script name: '' @ so_name second))"
proof -
  from first_added have ctx: "currentContext e1 \<noteq> []"
    using AddScript_Inr_context by metis
  from registered have stored:
    "list_ex (\<lambda>entry. so_name (snd entry) = so_name second) (scripts r1)"
    using map_of_Some_list_ex [of "scripts r1" _ first "\<lambda>s. so_name s = so_name second"] same_name
    by (auto simp: GetScriptById_def)
  show ?thesis
    using ctx stored assigned same_name registered
    by (simp add: AddScript_def ABORT_MSG_def ABORT_def QueueForDelayedDelete_def)
qed

theorem duplicate_name_rejected_witness:
  "AddScript False demo_ids script_a (empty_registry NoHooks) (SetScriptContext ''mod1'' empty_env)
     = Inr (registry_with_a, env_with_a)
   \<and> so_ptr script_a_again \<noteq> so_ptr script_a
   \<and> AddScript False demo_ids script_a_again registry_with_a env_with_a
     = Inr (registry_with_a,
            env_with_a\<lparr>error_log := error_log env_with_a @
                          [''Script already assigned with the same script name: '' @ so_name script_a_again],
                        delayed_delete_queue := delayed_delete_queue env_with_a @ [script_a_again]\<rparr>)
   \<and> GetScriptById registry_with_a (demo_ids (so_name script_a_again)) = Some script_a"
proof -
  have first:
    "AddScript False demo_ids script_a (empty_registry NoHooks) (SetScriptContext ''mod1'' empty_env)
       = Inr (registry_with_a, env_with_a)"
    by (simp add: AddScript_def demo_ids_def script_a_def empty_registry_def empty_env_def
          SetScriptContext_def SetScriptNameInContext_def registry_with_a_def env_with_a_def)
  have reg: "GetScriptById registry_with_a (demo_ids (so_name script_a)) = Some script_a"
    by (simp add: GetScriptById_def demo_ids_def script_a_def registry_with_a_def)
  have more: "demo_ids (so_name script_a) \<noteq> 0" "so_name script_a_again = so_name script_a"
    by (simp_all add: demo_ids_def script_a_def script_a_again_def)
  have ptrs: "so_ptr script_a_again \<noteq> so_ptr script_a"
    by (simp add: script_a_def script_a_again_def)
  from duplicate_name_rejected [OF first reg more] first ptrs show ?thesis
    by blast
qed

subsection \<open>What the lifecycle calls leave alone\<close>

lemma ForEachRegistry_preserves:
  assumes step: "\<And>reg e reg1 e1. f reg e = Inr (reg1, e1) \<Longrightarrow> P e1 = P e"
  shows "ForEachRegistry f regs e = Inr (regs1, e2) \<Longrightarrow> P e2 = P e"
proof (induction regs arbitrary: e regs1 e2)
  case Nil
  then show ?case by simp
next
  case (Cons reg regs)
  from Cons.prems obtain reg1 e1 regs' where
    a: "f reg e = Inr (reg1, e1)" and b: "ForEachRegistry f regs e1 = Inr (regs', e2)"
    by (auto simp: and_then_eq_Inr)
  from Cons.IH [OF b] step [OF a] show ?case by simp
qed

lemma BeforeReleaseContext_frame:
  assumes "BeforeReleaseContext ctx r e = Inr (r1, e1)"
  shows "delayed_delete_queue e1 = delayed_delete_queue e"
    and "scriptnames_to_context e1 = scriptnames_to_context e"
    and "destroyed e1 = destroyed e"
    and "currentContext e1 = currentContext e"
    and "scripts r1 = scripts r"
    and "ids_of_contexts r1 = ids_of_contexts r"
    and "recently_added_ids r1 = recently_added_ids r"
    and "alScripts r1 = alScripts r"
    and "hook r1 = hook r"
  using assms
  by (auto simp: BeforeReleaseContext_def Let_def and_then_eq_Inr split: hook_kind.splits if_splits)

lemma BeforeSwapContext_frame:
  assumes "BeforeSwapContext initialize r e = Inr (r1, e1)"
  shows "delayed_delete_queue e1 = delayed_delete_queue e"
    and "scriptnames_to_context e1 = scriptnames_to_context e"
    and "destroyed e1 = destroyed e"
    and "currentContext e1 = currentContext e"
    and "scripts r1 = scripts r"
    and "ids_of_contexts r1 = ids_of_contexts r"
    and "recently_added_ids r1 = recently_added_ids r"
    and "alScripts r1 = alScripts r"
    and "hook r1 = hook r"
  using assms
  by (auto simp: BeforeSwapContext_def Let_def and_then_eq_Inr split: hook_kind.splits if_splits)

lemma ReleaseContext_frame:
  assumes "ReleaseContext ctx r e = Inr (r1, e1)"
  shows "delayed_delete_queue e1 = delayed_delete_queue e"
    and "scriptnames_to_context e1 = scriptnames_to_context e"
    and "currentContext e1 = currentContext e"
    and "ids_of_contexts r1 = ids_of_contexts r"
    and "recently_added_ids r1 = recently_added_ids r"
    and "alScripts r1 = alScripts r"
    and "hook r1 = hook r"
  using assms BeforeReleaseContext_frame
  by (auto simp: ReleaseContext_def Let_def and_then_eq_Inr)

lemma SwapContext_frame:
  assumes "SwapContext initialize r e = Inr (r1, e1)"
  shows "delayed_delete_queue e1 = delayed_delete_queue e"
    and "scriptnames_to_context e1 = scriptnames_to_context e"
    and "destroyed e1 = destroyed e"
    and "currentContext e1 = currentContext e"
    and "scripts r1 = scripts r"
    and "ids_of_contexts r1 = ids_of_contexts r"
    and "recently_added_ids r1 = {}"
    and "alScripts r1 = alScripts r"
    and "hook r1 = hook r"
  using assms BeforeSwapContext_frame
  by (auto simp: SwapContext_def and_then_eq_Inr)

lemma Registry_ReleaseContext_frame:
  assumes "Registry_ReleaseContext ctx reg e = Inr (reg1, e1)"
  shows "delayed_delete_queue e1 = delayed_delete_queue e"
    and "scriptnames_to_context e1 = scriptnames_to_context e"
    and "currentContext e1 = currentContext e"
  using assms ReleaseContext_frame
  by (auto simp: Registry_ReleaseContext_def Unbound_ReleaseContext_def InvalidateCommandTable_def
        Let_def and_then_eq_Inr split: registry.splits unbound_hook_kind.splits)

lemma Registry_SwapContext_frame:
  assumes "Registry_SwapContext initialize reg e = Inr (reg1, e1)"
  shows "delayed_delete_queue e1 = delayed_delete_queue e"
    and "scriptnames_to_context e1 = scriptnames_to_context e"
    and "destroyed e1 = destroyed e"
    and "currentContext e1 = currentContext e"
  using assms SwapContext_frame
  by (auto simp: Registry_SwapContext_def Unbound_SwapContext_def InvalidateCommandTable_def
        Let_def and_then_eq_Inr split: registry.splits unbound_hook_kind.splits)

subsection \<open>The name map on release\<close>

text \<open>
  When \<^verbatim>\<open>ScriptRegistryCompositum::ReleaseContext(ctx)\<close> returns, no registry's
  \<^verbatim>\<open>ReleaseContext\<close> has touched the name map, the map that results is the erase loop
  applied to it and holds no entry whose context is \<open>ctx\<close>, and every name that was
  mapped to \<open>ctx\<close> passes the assertion of \<^verbatim>\<open>SetScriptNameInContext\<close> for any new
  context.
\<close>

lemma Compositum_ReleaseContext_erases_names:
  assumes "Compositum_ReleaseContext ctx s = Inr s'"
  shows "(\<exists>regs e1.
            ForEachRegistry (Registry_ReleaseContext ctx) (registries s) (genv s) = Inr (regs, e1)
          \<and> scriptnames_to_context e1 = scriptnames_to_context (genv s)
          \<and> registries s' = regs
          \<and> scriptnames_to_context (genv s') =
              erase_names_of_context ctx (scriptnames_to_context e1))
       \<and> (\<forall>scriptname. scriptnames_to_context (genv s') scriptname \<noteq> Some ctx)
       \<and> (\<forall>scriptname new_ctx.
            scriptnames_to_context (genv s) scriptname = Some ctx \<longrightarrow>
            SetScriptNameInContext scriptname new_ctx (genv s') =
              Inr ((genv s')\<lparr>scriptnames_to_context :=
                     (scriptnames_to_context (genv s'))(scriptname \<mapsto> new_ctx)\<rparr>))"
proof -
  from assms obtain regs e1 where
    loop: "ForEachRegistry (Registry_ReleaseContext ctx) (registries s) (genv s) = Inr (regs, e1)"
    and s': "s' = \<lparr>registries = regs,
                   genv = e1\<lparr>scriptnames_to_context :=
                               erase_names_of_context ctx (scriptnames_to_context e1)\<rparr>\<rparr>"
    by (auto simp: Compositum_ReleaseContext_def and_then_eq_Inr)
  have names: "scriptnames_to_context e1 = scriptnames_to_context (genv s)"
    using loop
    by (rule ForEachRegistry_preserves [where P = scriptnames_to_context, rotated])
       (rule Registry_ReleaseContext_frame)
  have after: "scriptnames_to_context (genv s') =
                 erase_names_of_context ctx (scriptnames_to_context e1)"
    by (simp add: s')
  have gone: "\<forall>scriptname. scriptnames_to_context (genv s') scriptname \<noteq> Some ctx"
    by (simp add: after erase_names_of_context_def)
  have again: "\<forall>scriptname new_ctx.
            scriptnames_to_context (genv s) scriptname = Some ctx \<longrightarrow>
            SetScriptNameInContext scriptname new_ctx (genv s') =
              Inr ((genv s')\<lparr>scriptnames_to_context :=
                     (scriptnames_to_context (genv s'))(scriptname \<mapsto> new_ctx)\<rparr>)"
    by (simp add: after names erase_names_of_context_def SetScriptNameInContext_def)
  from loop names after gone again s' show ?thesis by simp
qed

subsection \<open>The delayed delete queue\<close>

lemma AddScript_queue:
  assumes "AddScript dbg gsi script r e = Inr (r1, e1)"
  shows "delayed_delete_queue e1 = delayed_delete_queue e
       \<or> delayed_delete_queue e1 = delayed_delete_queue e @ [script] \<and> destroyed e1 = destroyed e"
  using assms
  by (auto simp: AddScript_def Let_def ABORT_MSG_def ABORT_def QueueForDelayedDelete_def
        LOG_ERROR_def SetScriptNameInContext_def and_then_eq_Inr split: if_splits)

lemma Unbound_AddScript_queue:
  assumes "Unbound_AddScript script u e = Inr (u1, e1)"
  shows "delayed_delete_queue e1 = delayed_delete_queue e
       \<or> delayed_delete_queue e1 = delayed_delete_queue e @ [script] \<and> destroyed e1 = destroyed e"
  using assms
  by (auto simp: Unbound_AddScript_def QueueForDelayedDelete_def LOG_ERROR_def split: if_splits)

lemma fold_erase_script_destroyed:
  "\<exists>ds. snd (fold erase_script ids (scs, d)) = d @ ds
        \<and> set ds \<subseteq> (\<lambda>entry. so_ptr (snd entry)) ` set scs"
proof (induction ids arbitrary: scs d)
  case Nil
  show ?case by simp
next
  case (Cons sid ids)
  let ?scs1 = "filter (\<lambda>entry. fst entry \<noteq> sid) scs"
  let ?gone = "map (\<lambda>entry. so_ptr (snd entry)) (filter (\<lambda>entry. fst entry = sid) scs)"
  from Cons.IH [of ?scs1 "d @ ?gone"] obtain ds where
    ds: "snd (fold erase_script ids (?scs1, d @ ?gone)) = (d @ ?gone) @ ds"
    and sub: "set ds \<subseteq> (\<lambda>entry. so_ptr (snd entry)) ` set ?scs1"
    by blast
  have "snd (fold erase_script (sid # ids) (scs, d)) = d @ (?gone @ ds)"
    using ds by (simp add: erase_script_def)
  moreover have "set (?gone @ ds) \<subseteq> (\<lambda>entry. so_ptr (snd entry)) ` set scs"
    using sub by auto
  ultimately show ?case by blast
qed

lemma Registry_ReleaseContext_destroyed:
  assumes "Registry_ReleaseContext ctx reg e = Inr (reg1, e1)"
  shows "\<exists>ds. destroyed e1 = destroyed e @ ds \<and> set ds \<subseteq> owned_ptrs reg"
proof (cases reg)
  case (DatabaseBound r)
  with assms obtain r0 e0 where
    before: "BeforeReleaseContext ctx r e = Inr (r0, e0)"
    and e1: "destroyed e1 = snd (fold erase_script (equal_range ctx r0) (scripts r0, destroyed e0))"
    by (auto simp: Registry_ReleaseContext_def ReleaseContext_def Let_def and_then_eq_Inr)
  from BeforeReleaseContext_frame [OF before]
  have same: "scripts r0 = scripts r" "destroyed e0 = destroyed e" by simp_all
  from fold_erase_script_destroyed [of "equal_range ctx r0" "scripts r" "destroyed e"] e1 same
  show ?thesis by (simp add: owned_ptrs_def DatabaseBound)
next
  case (DatabaseUnbound u)
  with assms show ?thesis
    by (auto simp: Registry_ReleaseContext_def Unbound_ReleaseContext_def owned_ptrs_def
          InvalidateCommandTable_def Let_def and_then_eq_Inr split: unbound_hook_kind.splits)
qed

lemma ForEachRegistry_release_destroyed:
  "ForEachRegistry (Registry_ReleaseContext ctx) regs e = Inr (regs1, e2) \<Longrightarrow>
     \<exists>ds. destroyed e2 = destroyed e @ ds \<and> set ds \<subseteq> \<Union> (owned_ptrs ` set regs)"
proof (induction regs arbitrary: e regs1 e2)
  case Nil
  then show ?case by simp
next
  case (Cons reg regs)
  from Cons.prems obtain reg1 e1 regs' where
    a: "Registry_ReleaseContext ctx reg e = Inr (reg1, e1)"
    and b: "ForEachRegistry (Registry_ReleaseContext ctx) regs e1 = Inr (regs', e2)"
    by (auto simp: and_then_eq_Inr)
  from Registry_ReleaseContext_destroyed [OF a] obtain ds1 where
    ds1: "destroyed e1 = destroyed e @ ds1" "set ds1 \<subseteq> owned_ptrs reg" by blast
  from Cons.IH [OF b] obtain ds2 where
    ds2: "destroyed e2 = destroyed e1 @ ds2" "set ds2 \<subseteq> \<Union> (owned_ptrs ` set regs)" by blast
  have "destroyed e2 = destroyed e @ (ds1 @ ds2)" using ds1 ds2 by simp
  moreover have "set (ds1 @ ds2) \<subseteq> \<Union> (owned_ptrs ` set (reg # regs))"
    using ds1 ds2 by auto
  ultimately show ?case by blast
qed

text \<open>
  \<^verbatim>\<open>ScriptRegistryCompositum::ReleaseContext\<close> leaves the queue as it is and destroys
  only scripts the registries own.
\<close>

lemma Compositum_ReleaseContext_queue:
  assumes "Compositum_ReleaseContext ctx s = Inr s1"
  shows "delayed_delete_queue (genv s1) = delayed_delete_queue (genv s)"
    and "\<exists>ds. destroyed (genv s1) = destroyed (genv s) @ ds
            \<and> set ds \<subseteq> \<Union> (owned_ptrs ` set (registries s))"
proof -
  from assms obtain regs e1 where
    loop: "ForEachRegistry (Registry_ReleaseContext ctx) (registries s) (genv s) = Inr (regs, e1)"
    and s1: "delayed_delete_queue (genv s1) = delayed_delete_queue e1"
            "destroyed (genv s1) = destroyed e1"
    by (auto simp: Compositum_ReleaseContext_def and_then_eq_Inr)
  have "delayed_delete_queue e1 = delayed_delete_queue (genv s)"
    using loop
    by (rule ForEachRegistry_preserves [where P = delayed_delete_queue, rotated])
       (rule Registry_ReleaseContext_frame)
  with s1 show "delayed_delete_queue (genv s1) = delayed_delete_queue (genv s)" by simp
  from ForEachRegistry_release_destroyed [OF loop] s1
  show "\<exists>ds. destroyed (genv s1) = destroyed (genv s) @ ds
            \<and> set ds \<subseteq> \<Union> (owned_ptrs ` set (registries s))"
    by simp
qed

text \<open>
  No registry's \<^verbatim>\<open>SwapContext\<close> touches the queue or runs a destructor of a script;
  \<^verbatim>\<open>ScriptRegistryCompositum::SwapContext\<close> ends with the queue empty and the
  destructors of the queued objects run, in queue order.
\<close>

lemma Compositum_SwapContext_drains:
  assumes "Compositum_SwapContext initialize s = Inr s1"
  shows "delayed_delete_queue (genv s1) = []"
    and "destroyed (genv s1) = destroyed (genv s) @ map so_ptr (delayed_delete_queue (genv s))"
proof -
  from assms obtain regs e1 where
    loop: "ForEachRegistry (Registry_SwapContext initialize) (registries s) (genv s) = Inr (regs, e1)"
    and s1: "s1 = \<lparr>registries = regs, genv = DoDelayedDelete e1\<rparr>"
    by (auto simp: Compositum_SwapContext_def and_then_eq_Inr)
  have q: "delayed_delete_queue e1 = delayed_delete_queue (genv s)"
    using loop
    by (rule ForEachRegistry_preserves [where P = delayed_delete_queue, rotated])
       (rule Registry_SwapContext_frame)
  have d: "destroyed e1 = destroyed (genv s)"
    using loop
    by (rule ForEachRegistry_preserves [where P = destroyed, rotated])
       (rule Registry_SwapContext_frame)
  show "delayed_delete_queue (genv s1) = []"
    by (simp add: s1 DoDelayedDelete_def)
  show "destroyed (genv s1) = destroyed (genv s) @ map so_ptr (delayed_delete_queue (genv s))"
    by (simp add: s1 DoDelayedDelete_def q d)
qed

text \<open>
  Claim C4, evaluated on the code. A system with a database bound registry and the
  CommandScript registry, both empty.

  \<open>script_b\<close> registers with the CommandScript registry under "mod1", and its
  \<^verbatim>\<open>AddScript\<close> is called a second time: the registry finds the pointer among its
  scripts and queues it for delayed delete, and no destructor runs in the call. The
  queued object is still owned by \<^verbatim>\<open>_scripts\<close>: \<^verbatim>\<open>ReleaseContext("mod1")\<close> destroys it
  while it is on the queue, before any \<^verbatim>\<open>SwapContext\<close>, and the drain of the next
  \<^verbatim>\<open>SwapContext\<close> runs its destructor again.

  The database bound registry does the same with \<open>script_a\<close>, which the second call
  rejects for its name (debug assertions are off: \<^verbatim>\<open>ABORT_MSG\<close> logs and the call
  goes on to queue the script).
\<close>

theorem queued_script_destroyed_by_release:
  "map_sum (\<lambda>err. err) (\<lambda>s. (delayed_delete_queue (genv s), destroyed (genv s)))
     (run_ops False demo_ids
        [OpAddScript 1 ''mod1'' script_b, OpAddScript 1 ''mod1'' script_b]
        two_registry_system)
     = Inr ([script_b], [])
   \<and> map_sum (\<lambda>err. err) (\<lambda>s. (delayed_delete_queue (genv s), destroyed (genv s)))
     (run_ops False demo_ids
        [OpAddScript 1 ''mod1'' script_b, OpAddScript 1 ''mod1'' script_b,
         OpReleaseContext ''mod1'']
        two_registry_system)
     = Inr ([script_b], [so_ptr script_b])
   \<and> map_sum (\<lambda>err. err) (\<lambda>s. (delayed_delete_queue (genv s), destroyed (genv s)))
     (run_ops False demo_ids
        [OpAddScript 1 ''mod1'' script_b, OpAddScript 1 ''mod1'' script_b,
         OpReleaseContext ''mod1'', OpSwapContext False]
        two_registry_system)
     = Inr ([], [so_ptr script_b, so_ptr script_b])
   \<and> map_sum (\<lambda>err. err) (\<lambda>s. (delayed_delete_queue (genv s), destroyed (genv s)))
     (run_ops False demo_ids
        [OpAddScript 0 ''mod1'' script_a, OpAddScript 0 ''mod1'' script_a]
        two_registry_system)
     = Inr ([script_a], [])
   \<and> map_sum (\<lambda>err. err) (\<lambda>s. (delayed_delete_queue (genv s), destroyed (genv s)))
     (run_ops False demo_ids
        [OpAddScript 0 ''mod1'' script_a, OpAddScript 0 ''mod1'' script_a,
         OpReleaseContext ''mod1'']
        two_registry_system)
     = Inr ([script_a], [so_ptr script_a])"
  by (simp add: two_registry_system_def empty_command_registry_def
        System_AddScript_def AddScript_def Unbound_AddScript_def SetScriptNameInContext_def
        ABORT_MSG_def ABORT_def QueueForDelayedDelete_def LOG_ERROR_def
        SetScriptContext_def ReleaseScriptContext_def
        Compositum_ReleaseContext_def Registry_ReleaseContext_def
        ReleaseContext_def Unbound_ReleaseContext_def InvalidateCommandTable_def
        BeforeReleaseContext_def equal_range_def
        erase_script_def SwapScriptContext_def Compositum_SwapContext_def
        Registry_SwapContext_def SwapContext_def Unbound_SwapContext_def BeforeSwapContext_def
        DoDelayedDelete_def erase_names_of_context_def
        empty_registry_def empty_env_def demo_ids_def script_a_def
        script_b_def Let_def)

lemma touched_refl [simp]: "touched ids e e"
  by (simp add: touched_def)

lemma touched_trans: "touched ids a b \<Longrightarrow> touched ids b c \<Longrightarrow> touched ids a c"
  by (auto simp: touched_def)

lemma touched_ai_None: "touched ids e e' \<Longrightarrow> ai e' = None \<longleftrightarrow> ai e = None"
  by (auto simp: touched_def dest: arg_cong [where f = "\<lambda>x. x = None"])

subsection \<open>The destroy and initialize passes over the maps\<close>

lemma Visit_collect:
  "VisitObjectsToSwapOnMap ids
     (\<lambda>guidsToReset obj.
        Inr (if ai obj \<noteq> None \<and> guid obj \<noteq> 0 then guidsToReset @ [guid obj] else guidsToReset, obj))
     acc objs
   = Inr (acc @ map guid (filter (\<lambda>obj. script_id obj \<in> ids \<and> ai obj \<noteq> None \<and> guid obj \<noteq> 0) objs),
          objs)"
  by (induction objs arbitrary: acc) simp_all

lemma UnloadDestroyScript_eq: "UnloadDestroyScript ot e = Inr (e\<lparr>ai := None\<rparr>)"
  by (cases ot) (simp_all add: UnloadDestroyScript_def AIM_Destroy_def)

lemma Visit_destroy:
  "VisitObjectsToSwapOnMap ids
     (\<lambda>u obj. and_then (UnloadDestroyScript ot obj) (\<lambda>obj1. Inr (u, obj1))) u objs
   = Inr (u, map (\<lambda>obj. if script_id obj \<in> ids then obj\<lparr>ai := None\<rparr> else obj) objs)"
  by (induction objs) (simp_all add: UnloadDestroyScript_eq)

lemma UnloadResetScript_touched:
  assumes "ai e \<noteq> None" "script_id e \<in> ids"
  shows "\<exists>e'. UnloadResetScript ot e = Inr e' \<and> touched ids e e'"
  using assms
  by (cases ot)
     (auto simp: UnloadResetScript_def KillAllEvents_def RemoveCharmedBy_def EnterEvadeMode_def
        AI_Reset_def touched_def Let_def)

lemma LoadResetScript_touched:
  assumes "ai e \<noteq> None" "script_id e \<in> ids"
  shows "\<exists>e'. LoadResetScript ot e = Inr e' \<and> touched ids e e'"
  using assms
  by (cases ot)
     (auto simp: LoadResetScript_def AI_InitializeAndEnable_def EnterEvadeMode_def
        AI_Reset_def touched_def)

lemma StoreEntity_touched:
  assumes "find (\<lambda>obj. guid obj = g) objs = Some e" "touched ids e e1"
  shows "list_all2 (touched ids) objs (StoreEntity g e1 objs)"
  using assms
  by (induction objs) (auto simp: list_all2_same split: if_splits)

lemma find_touched:
  assumes "list_all2 (touched ids) objs objs'"
    and "find (\<lambda>obj. guid obj = g) objs' = Some e'"
  shows "\<exists>e. find (\<lambda>obj. guid obj = g) objs = Some e \<and> touched ids e e'"
  using assms
  by (induction objs objs' rule: list_all2_induct) (auto simp: touched_def split: if_splits)

lemma ResetGuids_touched:
  assumes "\<forall>g \<in> set gs. \<forall>e. GetEntityFromMap objs g = Some e \<longrightarrow> ai e \<noteq> None \<and> script_id e \<in> ids"
  shows "\<exists>objs'. ResetGuids ot gs objs = Inr objs' \<and> list_all2 (touched ids) objs objs'"
  using assms
proof (induction gs arbitrary: objs)
  case Nil
  show ?case by (simp add: list_all2_same)
next
  case (Cons g gs)
  show ?case
  proof (cases "GetEntityFromMap objs g")
    case None
    with Cons.IH [of objs] Cons.prems show ?thesis by simp
  next
    case (Some e)
    with Cons.prems have "ai e \<noteq> None" "script_id e \<in> ids" by auto
    from UnloadResetScript_touched [OF this] obtain e1 where
      e1: "UnloadResetScript ot e = Inr e1" "touched ids e e1" by blast
    let ?objs1 = "StoreEntity g e1 objs"
    have step: "list_all2 (touched ids) objs ?objs1"
      using Some e1 by (simp add: GetEntityFromMap_def StoreEntity_touched)
    have "\<forall>g \<in> set gs. \<forall>e. GetEntityFromMap ?objs1 g = Some e \<longrightarrow> ai e \<noteq> None \<and> script_id e \<in> ids"
    proof (intro ballI allI impI)
      fix g' e' assume g': "g' \<in> set gs" and f: "GetEntityFromMap ?objs1 g' = Some e'"
      from find_touched [OF step] f obtain e0 where
        e0: "GetEntityFromMap objs g' = Some e0" "touched ids e0 e'"
        by (auto simp: GetEntityFromMap_def)
      with Cons.prems g' have "ai e0 \<noteq> None" "script_id e0 \<in> ids" by auto
      with e0 show "ai e' \<noteq> None \<and> script_id e' \<in> ids"
        by (auto simp: touched_ai_None) (simp add: touched_def)
    qed
    from Cons.IH [OF this] obtain objs' where
      rest: "ResetGuids ot gs ?objs1 = Inr objs'" "list_all2 (touched ids) ?objs1 objs'" by blast
    have "list_all2 (touched ids) objs objs'"
      using step rest(2) by (rule list_all2_trans [rotated]) (rule touched_trans)
    with rest Some e1 show ?thesis by simp
  qed
qed

lemma InitGuids_touched:
  assumes "\<forall>g \<in> set gs. \<forall>e. GetEntityFromMap objs g = Some e \<longrightarrow> ai e \<noteq> None \<and> script_id e \<in> ids"
  shows "\<exists>objs'. InitGuids ot gs n objs = Inr (n, objs') \<and> list_all2 (touched ids) objs objs'"
  using assms
proof (induction gs arbitrary: objs)
  case Nil
  show ?case by (simp add: list_all2_same)
next
  case (Cons g gs)
  show ?case
  proof (cases "GetEntityFromMap objs g")
    case None
    with Cons.IH [of objs] Cons.prems show ?thesis by simp
  next
    case (Some e)
    with Cons.prems have has_ai: "ai e \<noteq> None" "script_id e \<in> ids" by auto
    from LoadResetScript_touched [OF this] obtain e1 where
      e1: "LoadResetScript ot e = Inr e1" "touched ids e e1" by blast
    let ?objs1 = "StoreEntity g e1 objs"
    have step: "list_all2 (touched ids) objs ?objs1"
      using Some e1 by (simp add: GetEntityFromMap_def StoreEntity_touched)
    have "\<forall>g \<in> set gs. \<forall>e. GetEntityFromMap ?objs1 g = Some e \<longrightarrow> ai e \<noteq> None \<and> script_id e \<in> ids"
    proof (intro ballI allI impI)
      fix g' e' assume g': "g' \<in> set gs" and f: "GetEntityFromMap ?objs1 g' = Some e'"
      from find_touched [OF step] f obtain e0 where
        e0: "GetEntityFromMap objs g' = Some e0" "touched ids e0 e'"
        by (auto simp: GetEntityFromMap_def)
      with Cons.prems g' have "ai e0 \<noteq> None" "script_id e0 \<in> ids" by auto
      with e0 show "ai e' \<noteq> None \<and> script_id e' \<in> ids"
        by (auto simp: touched_ai_None) (simp add: touched_def)
    qed
    from Cons.IH [OF this] obtain objs' where
      rest: "InitGuids ot gs n ?objs1 = Inr (n, objs')" "list_all2 (touched ids) ?objs1 objs'"
      by blast
    have "list_all2 (touched ids) objs objs'"
      using step rest(2) by (rule list_all2_trans [rotated]) (rule touched_trans)
    from has_ai obtain a where a: "ai e = Some a" by auto
    with rest Some e1 \<open>list_all2 (touched ids) objs objs'\<close> show ?thesis by simp
  qed
qed

lemma distinct_find:
  "distinct (map guid objs) \<Longrightarrow> obj \<in> set objs \<Longrightarrow>
     find (\<lambda>x. guid x = guid obj) objs = Some obj"
  by (induction objs) (auto simp: image_iff)

lemma list_all2_map_eq:
  "list_all2 (\<lambda>a b. f b = f a) xs ys \<Longrightarrow> map f ys = map f xs"
  by (induction xs ys rule: list_all2_induct) simp_all

lemma DestroyScriptIdsOnMap_correct:
  assumes "distinct (map guid objs)"
  shows "\<exists>objs'. DestroyScriptIdsOnMap ot ids objs = Inr objs'
           \<and> list_all2 (after_destroy ids) objs objs'"
proof -
  let ?gs = "map guid (filter (\<lambda>obj. script_id obj \<in> ids \<and> ai obj \<noteq> None \<and> guid obj \<noteq> 0) objs)"
  have "\<forall>g \<in> set ?gs. \<forall>e. GetEntityFromMap objs g = Some e \<longrightarrow> ai e \<noteq> None \<and> script_id e \<in> ids"
  proof (intro ballI allI impI)
    fix g e assume "g \<in> set ?gs" and f: "GetEntityFromMap objs g = Some e"
    then obtain obj where obj: "obj \<in> set objs" "script_id obj \<in> ids" "ai obj \<noteq> None" "guid obj = g"
      by auto
    from distinct_find [OF assms obj(1)] obj(4) f have "e = obj"
      by (simp add: GetEntityFromMap_def)
    with obj show "ai e \<noteq> None \<and> script_id e \<in> ids" by simp
  qed
  from ResetGuids_touched [OF this] obtain objs2 where
    reset: "ResetGuids ot ?gs objs = Inr objs2" and rel: "list_all2 (touched ids) objs objs2"
    by blast
  let ?objs3 = "map (\<lambda>obj. if script_id obj \<in> ids then obj\<lparr>ai := None\<rparr> else obj) objs2"
  have run: "DestroyScriptIdsOnMap ot ids objs = Inr ?objs3"
    by (simp only: DestroyScriptIdsOnMap_def Visit_collect and_then_Inr prod.case append_Nil
          reset Visit_destroy)
  have "list_all2 (after_destroy ids) objs ?objs3"
    unfolding list_all2_map2
    by (rule list_all2_mono [OF rel]) (auto simp: touched_def after_destroy_def)
  with run show ?thesis by blast
qed

lemma after_init_visit_mono:
  "after_init_visit ids k e e' \<Longrightarrow> n \<le> k \<Longrightarrow> after_init_visit ids n e e'"
  by (cases "ai e'") (auto simp: after_init_visit_def split: if_splits)

lemma LoadInitializeScript_fresh:
  assumes "ai e = None"
  shows "\<exists>e'. LoadInitializeScript ot k e = Inr (Suc k, e')
           \<and> guid e' = guid e \<and> script_id e' = script_id e \<and> alive e' = alive e
           \<and> (\<exists>a. ai e' = Some a \<and> ai_ptr a = k \<and> ai_script_id a = script_id e)"
  using assms by (cases ot) (auto simp: LoadInitializeScript_def AIM_Create_def)

lemma Visit_init:
  "\<exists>gs' n' objs'.
     VisitObjectsToSwapOnMap ids
       (\<lambda>(guidsToReset, k) obj.
          if ai obj = None \<and> guid obj \<noteq> 0
          then and_then (LoadInitializeScript ot k obj) (\<lambda>(k1, obj1).
                 Inr ((guidsToReset @ [guid obj], k1), obj1))
          else Inr ((guidsToReset, k), obj))
       (gs, n) objs
     = Inr ((gs @ gs', n'), objs')
   \<and> n \<le> n'
   \<and> list_all2 (after_init_visit ids n) objs objs'
   \<and> set gs' \<subseteq> guid ` {obj \<in> set objs'. script_id obj \<in> ids \<and> ai obj \<noteq> None}"
proof (induction objs arbitrary: gs n)
  case Nil
  show ?case by simp
next
  case (Cons obj objs)
  let ?visitor = "\<lambda>(guidsToReset, k) obj.
          if ai obj = None \<and> guid obj \<noteq> 0
          then and_then (LoadInitializeScript ot k obj) (\<lambda>(k1, obj1).
                 Inr ((guidsToReset @ [guid obj], k1), obj1))
          else Inr ((guidsToReset, k), obj)"
  show ?case
  proof (cases "script_id obj \<in> ids \<and> ai obj = None \<and> guid obj \<noteq> 0")
    case True
    from True have "ai obj = None" by simp
    from LoadInitializeScript_fresh [OF this, of ot n] obtain obj1 a where
      init: "LoadInitializeScript ot n obj = Inr (Suc n, obj1)"
      and same: "guid obj1 = guid obj" "script_id obj1 = script_id obj" "alive obj1 = alive obj"
      and fresh: "ai obj1 = Some a" "ai_ptr a = n" "ai_script_id a = script_id obj"
      by (elim exE conjE)
    from Cons.IH [of "gs @ [guid obj]" "Suc n"] obtain gs' n' objs' where
      rest: "VisitObjectsToSwapOnMap ids ?visitor (gs @ [guid obj], Suc n) objs
               = Inr (((gs @ [guid obj]) @ gs', n'), objs')"
      and le: "Suc n \<le> n'"
      and rel: "list_all2 (after_init_visit ids (Suc n)) objs objs'"
      and sub: "set gs' \<subseteq> guid ` {obj \<in> set objs'. script_id obj \<in> ids \<and> ai obj \<noteq> None}"
      by blast
    have run: "VisitObjectsToSwapOnMap ids ?visitor (gs, n) (obj # objs)
                 = Inr ((gs @ (guid obj # gs'), n'), obj1 # objs')"
      using True init rest by simp
    have head: "after_init_visit ids n obj obj1"
      using True same fresh by (simp add: after_init_visit_def)
    have tail: "list_all2 (after_init_visit ids n) objs objs'"
      by (rule list_all2_mono [OF rel]) (simp add: after_init_visit_mono)
    have h: "guid obj \<in> guid ` {x \<in> set (obj1 # objs'). script_id x \<in> ids \<and> ai x \<noteq> None}"
      by (rule image_eqI [of _ _ obj1]) (use True same fresh in auto)
    have t: "set gs' \<subseteq> guid ` {x \<in> set (obj1 # objs'). script_id x \<in> ids \<and> ai x \<noteq> None}"
      using sub by auto
    from h t
    have "set (guid obj # gs') \<subseteq> guid ` {x \<in> set (obj1 # objs'). script_id x \<in> ids \<and> ai x \<noteq> None}"
      by simp
    with run le head tail show ?thesis
      by (intro exI [of _ "guid obj # gs'"] exI [of _ n'] exI [of _ "obj1 # objs'"]) simp
  next
    case False
    from Cons.IH [of gs n] obtain gs' n' objs' where
      rest: "VisitObjectsToSwapOnMap ids ?visitor (gs, n) objs = Inr ((gs @ gs', n'), objs')"
      and le: "n \<le> n'"
      and rel: "list_all2 (after_init_visit ids n) objs objs'"
      and sub: "set gs' \<subseteq> guid ` {obj \<in> set objs'. script_id obj \<in> ids \<and> ai obj \<noteq> None}"
      by blast
    have run: "VisitObjectsToSwapOnMap ids ?visitor (gs, n) (obj # objs)
                 = Inr ((gs @ gs', n'), obj # objs')"
      using False rest by auto
    have head: "after_init_visit ids n obj obj"
      using False by (auto simp: after_init_visit_def)
    have "set gs' \<subseteq> guid ` {x \<in> set (obj # objs'). script_id x \<in> ids \<and> ai x \<noteq> None}"
      using sub by auto
    with run le head rel show ?thesis
      by (intro exI [of _ gs'] exI [of _ n'] exI [of _ "obj # objs'"]) simp
  qed
qed

lemma after_init_visit_touched:
  "after_init_visit ids n a b \<Longrightarrow> touched ids b c \<Longrightarrow> after_initialize ids n a c"
  by (cases "ai b"; cases "ai c")
     (auto simp: after_init_visit_def touched_def after_initialize_def split: if_splits)

lemma InitializeScriptIdsOnMap_correct:
  assumes "distinct (map guid objs)"
  shows "\<exists>n' objs'. InitializeScriptIdsOnMap ot ids n objs = Inr (n', objs')
           \<and> n \<le> n' \<and> list_all2 (after_initialize ids n) objs objs'"
proof -
  let ?visitor = "\<lambda>(guidsToReset, k) obj.
          if ai obj = None \<and> guid obj \<noteq> 0
          then and_then (LoadInitializeScript ot k obj) (\<lambda>(k1, obj1).
                 Inr ((guidsToReset @ [guid obj], k1), obj1))
          else Inr ((guidsToReset, k), obj)"
  from Visit_init [of ids ot "[]" n objs] obtain gs n' objs1 where
    visit: "VisitObjectsToSwapOnMap ids ?visitor ([], n) objs = Inr ((gs, n'), objs1)"
    and le: "n \<le> n'"
    and rel: "list_all2 (after_init_visit ids n) objs objs1"
    and sub: "set gs \<subseteq> guid ` {obj \<in> set objs1. script_id obj \<in> ids \<and> ai obj \<noteq> None}"
    by auto
  have "list_all2 (\<lambda>a b. guid b = guid a) objs objs1"
    by (rule list_all2_mono [OF rel]) (simp add: after_init_visit_def)
  then have "map guid objs1 = map guid objs" by (rule list_all2_map_eq)
  with assms have dist: "distinct (map guid objs1)" by simp
  have "\<forall>g \<in> set gs. \<forall>e. GetEntityFromMap objs1 g = Some e \<longrightarrow> ai e \<noteq> None \<and> script_id e \<in> ids"
  proof (intro ballI allI impI)
    fix g e assume "g \<in> set gs" and f: "GetEntityFromMap objs1 g = Some e"
    with sub obtain obj where
      obj: "obj \<in> set objs1" "script_id obj \<in> ids" "ai obj \<noteq> None" "guid obj = g"
      by auto
    from distinct_find [OF dist obj(1)] obj(4) f have "e = obj"
      by (simp add: GetEntityFromMap_def)
    with obj show "ai e \<noteq> None \<and> script_id e \<in> ids" by simp
  qed
  from InitGuids_touched [OF this] obtain objs' where
    loop: "InitGuids ot gs n' objs1 = Inr (n', objs')"
    and rel2: "list_all2 (touched ids) objs1 objs'"
    by blast
  have run: "InitializeScriptIdsOnMap ot ids n objs = Inr (n', objs')"
    by (simp only: InitializeScriptIdsOnMap_def visit and_then_Inr prod.case loop)
  have "list_all2 (after_initialize ids n) objs objs'"
    using rel rel2 by (rule list_all2_trans [rotated]) (rule after_init_visit_touched)
  with run le show ?thesis by blast
qed

lemma GetObjectsStore_Set [simp]: "GetObjectsStore ot (SetObjectsStore ot objs m) = objs"
  by (cases ot) (simp_all add: GetObjectsStore_def SetObjectsStore_def)

lemma SetObjectsStore_Get [simp]: "SetObjectsStore ot (GetObjectsStore ot m) m = m"
  by (cases ot) (simp_all add: GetObjectsStore_def SetObjectsStore_def)

lemma SetObjectsStore_Set [simp]:
  "SetObjectsStore ot objs (SetObjectsStore ot objs' m) = SetObjectsStore ot objs m"
  by (cases ot) (simp_all add: SetObjectsStore_def)

lemma store_rel_Set:
  "list_all2 R (GetObjectsStore ot m) objs' \<Longrightarrow> store_rel R ot m (SetObjectsStore ot objs' m)"
  by (simp add: store_rel_def)

lemma store_rel_trans:
  assumes "store_rel P ot a b" "store_rel Q ot b c" "\<And>x y z. P x y \<Longrightarrow> Q y z \<Longrightarrow> R x z"
  shows "store_rel R ot a c"
proof -
  from assms(1,2) have "c = SetObjectsStore ot (GetObjectsStore ot c) a"
    by (metis SetObjectsStore_Set store_rel_def)
  moreover have "list_all2 R (GetObjectsStore ot a) (GetObjectsStore ot c)"
    using assms by (auto simp: store_rel_def elim: list_all2_trans [rotated])
  ultimately show ?thesis by (simp add: store_rel_def)
qed

lemma store_rel_mono:
  "store_rel P ot a b \<Longrightarrow> (\<And>x y. P x y \<Longrightarrow> Q x y) \<Longrightarrow> store_rel Q ot a b"
  by (auto simp: store_rel_def elim: list_all2_mono)

lemma store_rel_distinct:
  assumes "store_rel R ot m m'" "\<And>x y. R x y \<Longrightarrow> guid y = guid x"
    and "distinct (map guid (GetObjectsStore ot m))"
  shows "distinct (map guid (GetObjectsStore ot m'))"
proof -
  from assms(1,2) have "list_all2 (\<lambda>a b. guid b = guid a) (GetObjectsStore ot m) (GetObjectsStore ot m')"
    by (auto simp: store_rel_def elim: list_all2_mono)
  then have "map guid (GetObjectsStore ot m') = map guid (GetObjectsStore ot m)"
    by (rule list_all2_map_eq)
  with assms(3) show ?thesis by simp
qed

lemma DoForAllMaps_rel:
  assumes worker: "\<And>n m. W m \<Longrightarrow> \<exists>n' m'. worker n m = Inr (n', m') \<and> n \<le> n' \<and> R n m m'"
    and mono: "\<And>n k m m'. R k m m' \<Longrightarrow> n \<le> k \<Longrightarrow> R n m m'"
    and wf: "list_all W ms"
  shows "\<exists>n' ms'. DoForAllMaps worker n ms = Inr (n', ms') \<and> n \<le> n' \<and> list_all2 (R n) ms ms'"
  using wf
proof (induction ms arbitrary: n)
  case Nil
  show ?case by simp
next
  case (Cons m ms)
  from Cons.prems have "W m" "list_all W ms" by simp_all
  from worker [OF this(1), of n] obtain n1 m1 where
    head: "worker n m = Inr (n1, m1)" "n \<le> n1" "R n m m1" by blast
  from Cons.IH [OF \<open>list_all W ms\<close>, of n1] obtain n2 ms2 where
    tail: "DoForAllMaps worker n1 ms = Inr (n2, ms2)" "n1 \<le> n2" "list_all2 (R n1) ms ms2"
    by blast
  have "list_all2 (R n) ms ms2"
    by (rule list_all2_mono [OF tail(3)]) (rule mono [OF _ head(2)])
  with head tail show ?case by simp
qed

lemma after_initialize_mono:
  "after_initialize ids k e e' \<Longrightarrow> n \<le> k \<Longrightarrow> after_initialize ids n e e'"
  by (cases "ai e'") (auto simp: after_initialize_def split: if_splits)

lemma DoForAllMaps_same_counter:
  assumes "\<And>n m n' m'. worker n m = Inr (n', m') \<Longrightarrow> n' = n"
  shows "DoForAllMaps worker n ms = Inr (n', ms') \<Longrightarrow> n' = n"
proof (induction ms arbitrary: n ms')
  case Nil
  then show ?case by simp
next
  case (Cons m ms)
  from Cons.prems obtain n1 m1 ms1 where
    a: "worker n m = Inr (n1, m1)" and b: "DoForAllMaps worker n1 ms = Inr (n', ms1)"
    by (auto simp: and_then_eq_Inr)
  from assms [OF a] Cons.IH [OF b] show ?case by simp
qed

lemma DestroyScriptIdsFromSet_correct:
  assumes "well_formed_stores ot ms"
  shows "\<exists>ms'. DestroyScriptIdsFromSet ot ids (n, ms) = Inr (n, ms')
           \<and> list_all2 (store_rel (after_destroy ids) ot) ms ms'"
proof -
  let ?worker = "\<lambda>n m. and_then (DestroyScriptIdsOnMap ot ids (GetObjectsStore ot m)) (\<lambda>objs.
                   Inr (n, SetObjectsStore ot objs m))"
  have step: "\<exists>n' m'. ?worker n m = Inr (n', m') \<and> n \<le> n' \<and> store_rel (after_destroy ids) ot m m'"
    if "distinct (map guid (GetObjectsStore ot m))" for n :: nat and m
    using DestroyScriptIdsOnMap_correct [OF that, of ot ids] by (auto simp: store_rel_Set)
  from DoForAllMaps_rel
         [where W = "\<lambda>m. distinct (map guid (GetObjectsStore ot m))"
            and R = "\<lambda>n. store_rel (after_destroy ids) ot" and worker = ?worker, OF step]
       assms
  obtain n' ms' where
    run: "DoForAllMaps ?worker n ms = Inr (n', ms')"
    and rel: "list_all2 (store_rel (after_destroy ids) ot) ms ms'"
    unfolding well_formed_stores_def by blast
  have "n' = n"
    by (rule DoForAllMaps_same_counter [OF _ run]) (auto simp: and_then_eq_Inr)
  with run rel show ?thesis by (simp add: DestroyScriptIdsFromSet_def)
qed

lemma InitializeScriptIdsFromSet_correct:
  assumes "well_formed_stores ot ms"
  shows "\<exists>n' ms'. InitializeScriptIdsFromSet ot ids (n, ms) = Inr (n', ms')
           \<and> n \<le> n' \<and> list_all2 (store_rel (after_initialize ids n) ot) ms ms'"
proof -
  let ?worker = "\<lambda>n m. and_then (InitializeScriptIdsOnMap ot ids n (GetObjectsStore ot m))
                   (\<lambda>(n1, objs). Inr (n1, SetObjectsStore ot objs m))"
  have step: "\<exists>n' m'. ?worker n m = Inr (n', m') \<and> n \<le> n'
                \<and> store_rel (after_initialize ids n) ot m m'"
    if "distinct (map guid (GetObjectsStore ot m))" for n m
    using InitializeScriptIdsOnMap_correct [OF that, of ot ids n] by (auto simp: store_rel_Set)
  have mono: "store_rel (after_initialize ids n) ot m m'"
    if "store_rel (after_initialize ids k) ot m m'" "n \<le> k" for n k m m'
    using that by (auto elim!: store_rel_mono after_initialize_mono)
  from DoForAllMaps_rel
         [where W = "\<lambda>m. distinct (map guid (GetObjectsStore ot m))"
            and R = "\<lambda>n. store_rel (after_initialize ids n) ot" and worker = ?worker,
          OF step mono]
       assms
  show ?thesis
    unfolding well_formed_stores_def InitializeScriptIdsFromSet_def by simp
qed

lemma well_formed_stores_rel:
  assumes "well_formed_stores ot ms" "list_all2 (store_rel R ot) ms ms'"
    and "\<And>x y. R x y \<Longrightarrow> guid y = guid x"
  shows "well_formed_stores ot ms'"
  using assms(2,1)
  by (induction ms ms' rule: list_all2_induct)
     (auto simp: well_formed_stores_def intro: store_rel_distinct [OF _ assms(3)])

lemma after_destroy_initialize:
  "after_destroy ids a b \<Longrightarrow> after_initialize ids n b c \<Longrightarrow> entity_after_swap ids n a c"
  by (cases "ai c")
     (auto simp: after_destroy_def after_initialize_def entity_after_swap_def split: if_splits)


lemma swap_world:
  assumes "well_formed_stores ot ms"
  shows "\<exists>ms1 n' ms2.
           DestroyScriptIdsFromSet ot ids (n, ms) = Inr (n, ms1)
         \<and> InitializeScriptIdsFromSet ot ids (n, ms1) = Inr (n', ms2)
         \<and> n \<le> n'
         \<and> list_all2 (store_rel (entity_after_swap ids n) ot) ms ms2"
proof -
  from DestroyScriptIdsFromSet_correct [OF assms, of ids n] obtain ms1 where
    d: "DestroyScriptIdsFromSet ot ids (n, ms) = Inr (n, ms1)"
    and r1: "list_all2 (store_rel (after_destroy ids) ot) ms ms1" by blast
  have wf1: "well_formed_stores ot ms1"
    by (rule well_formed_stores_rel [OF assms r1]) (simp add: after_destroy_def)
  from InitializeScriptIdsFromSet_correct [OF wf1, of ids n] obtain n' ms2 where
    i: "InitializeScriptIdsFromSet ot ids (n, ms1) = Inr (n', ms2)" "n \<le> n'"
    and r2: "list_all2 (store_rel (after_initialize ids n) ot) ms1 ms2" by blast
  have "list_all2 (store_rel (entity_after_swap ids n) ot) ms ms2"
    using r1 r2
    by (rule list_all2_trans [rotated])
       (erule (1) store_rel_trans, erule (1) after_destroy_initialize)
  with d i show ?thesis by blast
qed

lemma BeforeSwapContext_creature_False:
  assumes "hook r = CreatureGameObjectHooks ot"
  shows "BeforeSwapContext False r e =
           and_then (DestroyScriptIdsFromSet ot (ids_removed r \<union> recently_added_ids r)
                       (next_ai e, world_maps e)) (\<lambda>w1.
           and_then (InitializeScriptIdsFromSet ot (ids_removed r \<union> recently_added_ids r) w1)
             (\<lambda>(n, ms).
           Inr (r\<lparr>ids_removed := {}\<rparr>, e\<lparr>world_maps := ms, next_ai := n\<rparr>)))"
  using assms by (simp add: BeforeSwapContext_def GetRecentlyAddedScriptIDs_def Let_def)

subsection \<open>The swap of creature and game object scripts\<close>

text \<open>
  Claim C6. For a registry with the creature / game object hooks:
  \<^verbatim>\<open>SwapContext(true)\<close> returns with the world and \<^verbatim>\<open>ids_removed_\<close> as they were
  (no destroy or initialize pass runs) and the recently added ids cleared.
  \<^verbatim>\<open>SwapContext(false)\<close> is the destroy pass and then the initialize pass, both over
  the union of \<^verbatim>\<open>ids_removed_\<close> and the recently added ids, and ends with both sets
  empty. On object stores with unique guids it returns, and every entity whose
  script id is in the union (so also one whose id was only recently added) has a
  newly allocated AI, or none when its guid is empty, while every other entity is
  unchanged.
\<close>

theorem SwapContext_creature_gameobject:
  assumes h: "hook r = CreatureGameObjectHooks ot"
    and wf: "well_formed_stores ot (world_maps e)"
  shows "SwapContext True r e = Inr (r\<lparr>recently_added_ids := {}\<rparr>, e)
       \<and> SwapContext False r e =
           and_then (DestroyScriptIdsFromSet ot (ids_removed r \<union> recently_added_ids r)
                       (next_ai e, world_maps e)) (\<lambda>w1.
           and_then (InitializeScriptIdsFromSet ot (ids_removed r \<union> recently_added_ids r) w1)
             (\<lambda>(n, ms).
           Inr (r\<lparr>ids_removed := {}, recently_added_ids := {}\<rparr>,
                e\<lparr>world_maps := ms, next_ai := n\<rparr>)))
       \<and> (\<exists>r1 e1. SwapContext False r e = Inr (r1, e1)
             \<and> recently_added_ids r1 = {} \<and> ids_removed r1 = {}
             \<and> list_all2
                 (store_rel (entity_after_swap (ids_removed r \<union> recently_added_ids r) (next_ai e)) ot)
                 (world_maps e) (world_maps e1))"
proof (intro conjI)
  show "SwapContext True r e = Inr (r\<lparr>recently_added_ids := {}\<rparr>, e)"
    using h by (simp add: SwapContext_def BeforeSwapContext_def)
  let ?ids = "ids_removed r \<union> recently_added_ids r"
  show eq: "SwapContext False r e =
           and_then (DestroyScriptIdsFromSet ot ?ids (next_ai e, world_maps e)) (\<lambda>w1.
           and_then (InitializeScriptIdsFromSet ot ?ids w1)
             (\<lambda>(n, ms).
           Inr (r\<lparr>ids_removed := {}, recently_added_ids := {}\<rparr>,
                e\<lparr>world_maps := ms, next_ai := n\<rparr>)))"
    by (cases "DestroyScriptIdsFromSet ot ?ids (next_ai e, world_maps e)";
        cases "InitializeScriptIdsFromSet ot ?ids
                 (projr (DestroyScriptIdsFromSet ot ?ids (next_ai e, world_maps e)))")
       (auto simp: SwapContext_def BeforeSwapContext_creature_False [OF h])
  from swap_world [OF wf, of ?ids "next_ai e"] obtain ms1 n' ms2 where
    d: "DestroyScriptIdsFromSet ot ?ids (next_ai e, world_maps e) = Inr (next_ai e, ms1)"
    and i: "InitializeScriptIdsFromSet ot ?ids (next_ai e, ms1) = Inr (n', ms2)"
    and rel: "list_all2 (store_rel (entity_after_swap ?ids (next_ai e)) ot) (world_maps e) ms2"
    by blast
  have "SwapContext False r e =
          Inr (r\<lparr>ids_removed := {}, recently_added_ids := {}\<rparr>,
               e\<lparr>world_maps := ms2, next_ai := n'\<rparr>)"
    by (simp add: eq d i)
  with rel show "\<exists>r1 e1. SwapContext False r e = Inr (r1, e1)
             \<and> recently_added_ids r1 = {} \<and> ids_removed r1 = {}
             \<and> list_all2 (store_rel (entity_after_swap ?ids (next_ai e)) ot)
                 (world_maps e) (world_maps e1)"
    by simp
qed






subsection \<open>The swap on the concrete world\<close>







theorem SwapContext_creature_gameobject_witness:
  "hook creature_registry = CreatureGameObjectHooks Creature
   \<and> well_formed_stores Creature (world_maps world_env)
   \<and> recently_added_ids creature_registry = {1}
   \<and> ids_removed creature_registry = {}
   \<and> SwapContext True creature_registry world_env
       = Inr (creature_registry\<lparr>recently_added_ids := {}\<rparr>, world_env)
   \<and> (\<exists>r1 e1. SwapContext False creature_registry world_env = Inr (r1, e1)
         \<and> recently_added_ids r1 = {} \<and> ids_removed r1 = {}
         \<and> list_all2
             (store_rel
                (entity_after_swap
                   (ids_removed creature_registry \<union> recently_added_ids creature_registry)
                   (next_ai world_env)) Creature)
             (world_maps world_env) (world_maps e1))"
proof -
  have h: "hook creature_registry = CreatureGameObjectHooks Creature"
    by (simp add: creature_registry_def)
  have wf: "well_formed_stores Creature (world_maps world_env)"
    by (simp add: well_formed_stores_def world_env_def demo_map_def GetObjectsStore_def
          creature_attached_def creature_untouched_def creature_unattached_def)
  have sets: "recently_added_ids creature_registry = {1}" "ids_removed creature_registry = {}"
    by (simp_all add: creature_registry_def registry_with_a_def empty_registry_def)
  from SwapContext_creature_gameobject [OF h wf] h wf sets show ?thesis by blast
qed

subsection \<open>A second swap changes nothing\<close>

lemma Visit_empty: "VisitObjectsToSwapOnMap {} visitor st objs = Inr (st, objs)"
  by (induction objs) simp_all

lemma DestroyScriptIdsOnMap_empty: "DestroyScriptIdsOnMap ot {} objs = Inr objs"
  by (simp add: DestroyScriptIdsOnMap_def Visit_empty)

lemma InitializeScriptIdsOnMap_empty: "InitializeScriptIdsOnMap ot {} n objs = Inr (n, objs)"
  by (simp add: InitializeScriptIdsOnMap_def Visit_empty)

lemma DoForAllMaps_idle:
  assumes "\<And>n m. worker n m = Inr (n, m)"
  shows "DoForAllMaps worker n ms = Inr (n, ms)"
  by (induction ms) (simp_all add: assms)

lemma DestroyScriptIdsFromSet_empty: "DestroyScriptIdsFromSet ot {} w = Inr w"
  by (simp add: DestroyScriptIdsFromSet_def DestroyScriptIdsOnMap_empty DoForAllMaps_idle)

lemma InitializeScriptIdsFromSet_empty: "InitializeScriptIdsFromSet ot {} w = Inr w"
  by (simp add: InitializeScriptIdsFromSet_def InitializeScriptIdsOnMap_empty DoForAllMaps_idle)

lemma Registry_SwapContext_settles:
  assumes "Registry_SwapContext False reg e = Inr (reg1, e1)"
  shows "settled reg1 e1"
proof (cases reg)
  case (DatabaseBound r)
  with assms show ?thesis
    by (auto simp: Registry_SwapContext_def SwapContext_def BeforeSwapContext_def settled_def
          Let_def and_then_eq_Inr split: hook_kind.splits if_splits)
next
  case (DatabaseUnbound u)
  with assms show ?thesis
    by (auto simp: Registry_SwapContext_def Unbound_SwapContext_def settled_def
          InvalidateCommandTable_def split: unbound_hook_kind.splits)
qed

lemma settled_idle:
  assumes "settled reg e"
  shows "Registry_SwapContext False reg e = Inr (reg, e)"
proof (cases reg)
  case (DatabaseBound r)
  with assms show ?thesis
    by (cases "hook r")
       (simp_all add: Registry_SwapContext_def SwapContext_def BeforeSwapContext_def settled_def
          GetRecentlyAddedScriptIDs_def DestroyScriptIdsFromSet_empty
          InitializeScriptIdsFromSet_empty)
next
  case (DatabaseUnbound u)
  with assms show ?thesis
    by (cases "u_hook u")
       (simp_all add: Registry_SwapContext_def Unbound_SwapContext_def settled_def
          InvalidateCommandTable_def)
qed

lemma Registry_SwapContext_command_table:
  assumes "Registry_SwapContext initialize reg e = Inr (reg1, e1)" "\<not> command_table_valid e"
  shows "\<not> command_table_valid e1"
  using assms
  by (cases reg)
     (auto simp: Registry_SwapContext_def SwapContext_def BeforeSwapContext_def
        Unbound_SwapContext_def InvalidateCommandTable_def Let_def and_then_eq_Inr
        split: hook_kind.splits if_splits unbound_hook_kind.splits)

lemma settled_kept:
  assumes "settled reg e" "Registry_SwapContext initialize reg' e = Inr (reg1, e1)"
  shows "settled reg e1"
  using assms Registry_SwapContext_command_table [OF assms(2)]
  by (auto simp: settled_def split: registry.splits unbound_hook_kind.splits)

lemma settled_kept_loop:
  "ForEachRegistry (Registry_SwapContext initialize) regs e = Inr (regs1, e2) \<Longrightarrow>
     settled reg e \<Longrightarrow> settled reg e2"
proof (induction regs arbitrary: e regs1)
  case Nil
  then show ?case by simp
next
  case (Cons reg' regs)
  from Cons.prems(1) obtain reg1 e1 regs' where
    a: "Registry_SwapContext initialize reg' e = Inr (reg1, e1)"
    and b: "ForEachRegistry (Registry_SwapContext initialize) regs e1 = Inr (regs', e2)"
    by (auto simp: and_then_eq_Inr)
  from Cons.IH [OF b settled_kept [OF Cons.prems(2) a]] show ?case .
qed

lemma loop_settles:
  "ForEachRegistry (Registry_SwapContext False) regs e = Inr (regs1, e2) \<Longrightarrow>
     list_all (\<lambda>reg. settled reg e2) regs1"
proof (induction regs arbitrary: e regs1)
  case Nil
  then show ?case by simp
next
  case (Cons reg regs)
  from Cons.prems obtain reg1 e1 regs' where
    a: "Registry_SwapContext False reg e = Inr (reg1, e1)"
    and b: "ForEachRegistry (Registry_SwapContext False) regs e1 = Inr (regs', e2)"
    and c: "regs1 = reg1 # regs'"
    by (auto simp: and_then_eq_Inr)
  from settled_kept_loop [OF b Registry_SwapContext_settles [OF a]] Cons.IH [OF b] c
  show ?case by simp
qed

lemma settled_loop_idle:
  "list_all (\<lambda>reg. settled reg e) regs \<Longrightarrow>
     ForEachRegistry (Registry_SwapContext False) regs e = Inr (regs, e)"
  by (induction regs) (simp_all add: settled_idle)

lemma settled_DoDelayedDelete: "settled reg e \<Longrightarrow> settled reg (DoDelayedDelete e)"
  by (auto simp: settled_def DoDelayedDelete_def split: registry.splits unbound_hook_kind.splits)

lemma DoDelayedDelete_twice: "DoDelayedDelete (DoDelayedDelete e) = DoDelayedDelete e"
  by (simp add: DoDelayedDelete_def)

text \<open>
  Claim C7. If \<^verbatim>\<open>ScriptRegistryCompositum::SwapContext(false)\<close> returned, a second
  call right after it returns the very same state: the registries (scripts, context
  index, recently added ids, hook state), the delayed delete queue and everything
  else the calls can reach are unchanged.
\<close>

theorem SwapContext_twice:
  assumes "Compositum_SwapContext False s = Inr s1"
  shows "Compositum_SwapContext False s1 = Inr s1"
proof -
  from assms obtain regs1 e2 where
    loop: "ForEachRegistry (Registry_SwapContext False) (registries s) (genv s) = Inr (regs1, e2)"
    and s1: "s1 = \<lparr>registries = regs1, genv = DoDelayedDelete e2\<rparr>"
    by (auto simp: Compositum_SwapContext_def and_then_eq_Inr)
  have "list_all (\<lambda>reg. settled reg (DoDelayedDelete e2)) regs1"
    by (rule list.pred_mono_strong [OF loop_settles [OF loop]]) (rule settled_DoDelayedDelete)
  then have "ForEachRegistry (Registry_SwapContext False) regs1 (DoDelayedDelete e2)
               = Inr (regs1, DoDelayedDelete e2)"
    by (rule settled_loop_idle)
  then show ?thesis
    by (simp add: Compositum_SwapContext_def s1 DoDelayedDelete_twice)
qed

theorem SwapContext_twice_witness:
  "Compositum_SwapContext False swap_system = Inr swap_system_settled
   \<and> Compositum_SwapContext False swap_system_settled = Inr swap_system_settled"
proof -
  have first: "Compositum_SwapContext False swap_system = Inr swap_system_settled"
    by (simp add: Compositum_SwapContext_def Registry_SwapContext_def SwapContext_def
        Unbound_SwapContext_def InvalidateCommandTable_def command_registry_def
        DoDelayedDelete_def swap_system_def swap_system_settled_def
        BeforeSwapContext_def GetRecentlyAddedScriptIDs_def creature_registry_def
        registry_with_a_def
        empty_registry_def world_env_def env_with_a_def empty_env_def
        DestroyScriptIdsFromSet_def InitializeScriptIdsFromSet_def
        GetObjectsStore_def SetObjectsStore_def demo_map_def demo_map_swapped_def
        DestroyScriptIdsOnMap_def InitializeScriptIdsOnMap_def creature_untouched_def
        creature_attached_def
        creature_unattached_def GetEntityFromMap_def UnloadResetScript_def KillAllEvents_def
        RemoveCharmedBy_def EnterEvadeMode_def UnloadDestroyScript_def AIM_Destroy_def
        LoadInitializeScript_def LoadResetScript_def AIM_Create_def AI_InitializeAndEnable_def
        Let_def)
  from SwapContext_twice [OF first] first show ?thesis by simp
qed

subsection \<open>Invariants of the database bound registry\<close>

lemma fold_erase_script_scripts:
  "fst (fold erase_script ids (scs, d)) = filter (\<lambda>entry. fst entry \<notin> set ids) scs"
  by (induction ids arbitrary: scs d) (auto simp: erase_script_def intro: filter_cong)










































subsection \<open>Releasing a context\<close>

lemma map_of_filter_out:
  "k \<in> S \<Longrightarrow> map_of (filter (\<lambda>entry. fst entry \<notin> S) xs) k = None"
  by (induction xs) auto

text \<open>
  For every id of the released context's bucket, \<^verbatim>\<open>GetScriptById\<close> finds nothing after
  the release.
\<close>

lemma ReleaseContext_GetScriptById:
  assumes "ReleaseContext ctx r e = Inr (r1, e1)" "sid \<in> GetScriptIDsToRemove ctx r"
  shows "GetScriptById r1 sid = None"
proof -
  from assms(1) obtain r0 e0 where
    before: "BeforeReleaseContext ctx r e = Inr (r0, e0)"
    and r1: "scripts r1 = fst (fold erase_script (equal_range ctx r0) (scripts r0, destroyed e0))"
    by (auto simp: ReleaseContext_def Let_def and_then_eq_Inr)
  from BeforeReleaseContext_frame [OF before]
  have "equal_range ctx r0 = equal_range ctx r" by (simp add: equal_range_def)
  with assms(2) r1 show ?thesis
    by (simp add: GetScriptById_def GetScriptIDsToRemove_def fold_erase_script_scripts
          map_of_filter_out)
qed

text \<open>
  Claim C2, evaluated on the code. The registry holds \<open>script_a\<close> (id 1) under
  context "mod1". \<^verbatim>\<open>ReleaseContext("mod1")\<close> erases the script, so
  \<^verbatim>\<open>GetScriptById(1)\<close> finds nothing, but \<^verbatim>\<open>_ids_of_contexts\<close> still holds the
  entry of "mod1": the release erases from \<^verbatim>\<open>_scripts\<close> only.
\<close>

theorem release_keeps_context_index:
  "ReleaseContext ''mod1'' registry_with_a env_with_a
     = Inr (registry_with_a\<lparr>scripts := []\<rparr>, env_with_a\<lparr>destroyed := [so_ptr script_a]\<rparr>)
   \<and> GetScriptById (registry_with_a\<lparr>scripts := []\<rparr>) 1 = None
   \<and> ids_of_contexts (registry_with_a\<lparr>scripts := []\<rparr>) = [(''mod1'', 1)]"
  by (simp add: ReleaseContext_def BeforeReleaseContext_def registry_with_a_def env_with_a_def
        empty_registry_def empty_env_def equal_range_def erase_script_def GetScriptById_def)

text \<open>
  What the entries that stay behind do: "mod1" is released and the script is
  registered again under "mod2"; a later release of "mod1" finds id 1 in the bucket
  of "mod1" and erases the script of "mod2".
\<close>

lemma stale_index_releases_other_context:
  "map_sum (\<lambda>err. err) registries
     (run_ops False demo_ids
        [OpAddScript 0 ''mod1'' script_a, OpSwapContext True, OpReleaseContext ''mod1'',
         OpSwapContext False, OpAddScript 0 ''mod2'' script_a_again, OpSwapContext False]
        one_registry_system)
     = Inr [DatabaseBound
              ((empty_registry NoHooks)\<lparr>scripts := [(1, script_a_again)],
                 ids_of_contexts := [(''mod1'', 1), (''mod2'', 1)]\<rparr>)]
   \<and> map_sum (\<lambda>err. err) registries
     (run_ops False demo_ids
        [OpAddScript 0 ''mod1'' script_a, OpSwapContext True, OpReleaseContext ''mod1'',
         OpSwapContext False, OpAddScript 0 ''mod2'' script_a_again, OpSwapContext False,
         OpReleaseContext ''mod1'']
        one_registry_system)
     = Inr [DatabaseBound
              ((empty_registry NoHooks)\<lparr>ids_of_contexts := [(''mod1'', 1), (''mod2'', 1)]\<rparr>)]"
  by (simp add: System_AddScript_def AddScript_def SetScriptNameInContext_def
        SetScriptContext_def ReleaseScriptContext_def
        Compositum_ReleaseContext_def Registry_ReleaseContext_def
        ReleaseContext_def BeforeReleaseContext_def equal_range_def
        erase_script_def SwapScriptContext_def Compositum_SwapContext_def
        Registry_SwapContext_def SwapContext_def BeforeSwapContext_def
        DoDelayedDelete_def erase_names_of_context_def one_registry_system_def
        empty_registry_def empty_env_def demo_ids_def script_a_def
        script_b_def script_a_again_def Let_def)

text \<open>
  Claim C10, evaluated on the code. "mod1" registers \<open>script_a\<close> (name "npc_a", id 1)
  and is released; "mod2" registers a new instance of the script. The index still
  holds id 1 in the bucket of "mod1", and the name map holds "npc_a" for "mod2".

  \<^verbatim>\<open>ScriptRegistryCompositum::ReleaseContext("mod1")\<close> then releases the script (the
  registry erases id 1 and destroys the instance) and leaves no name mapped to
  "mod1", but "npc_a" stays mapped to "mod2": the erase loop takes the names of
  "mod1" only. Registering "npc_a" again, under "mod3", fails the assertion of
  \<^verbatim>\<open>SetScriptNameInContext\<close>.
\<close>

theorem released_script_name_stays_mapped:
  "map_sum (\<lambda>err. err)
     (\<lambda>s. (registries s, scriptnames_to_context (genv s) ''npc_a'', destroyed (genv s)))
     (run_ops False demo_ids
        [OpAddScript 0 ''mod1'' script_a, OpSwapContext True, OpReleaseContext ''mod1'',
         OpSwapContext False, OpAddScript 0 ''mod2'' script_a_again, OpSwapContext False]
        one_registry_system)
     = Inr ([DatabaseBound
               ((empty_registry NoHooks)\<lparr>scripts := [(1, script_a_again)],
                  ids_of_contexts := [(''mod1'', 1), (''mod2'', 1)]\<rparr>)],
            Some ''mod2'', [so_ptr script_a])
   \<and> map_sum (\<lambda>err. err)
     (\<lambda>s. (registries s, scriptnames_to_context (genv s) ''npc_a'', destroyed (genv s)))
     (run_ops False demo_ids
        [OpAddScript 0 ''mod1'' script_a, OpSwapContext True, OpReleaseContext ''mod1'',
         OpSwapContext False, OpAddScript 0 ''mod2'' script_a_again, OpSwapContext False,
         OpReleaseContext ''mod1'']
        one_registry_system)
     = Inr ([DatabaseBound
               ((empty_registry NoHooks)\<lparr>ids_of_contexts := [(''mod1'', 1), (''mod2'', 1)]\<rparr>)],
            Some ''mod2'', [so_ptr script_a, so_ptr script_a_again])
   \<and> run_ops False demo_ids
        [OpAddScript 0 ''mod1'' script_a, OpSwapContext True, OpReleaseContext ''mod1'',
         OpSwapContext False, OpAddScript 0 ''mod2'' script_a_again, OpSwapContext False,
         OpReleaseContext ''mod1'', OpAddScript 0 ''mod3'' script_a_new]
        one_registry_system
     = Inl (AssertionFailed ''Scriptname was assigned to this context already!'')"
  by (simp add: System_AddScript_def AddScript_def SetScriptNameInContext_def
        SetScriptContext_def ReleaseScriptContext_def
        Compositum_ReleaseContext_def Registry_ReleaseContext_def
        ReleaseContext_def BeforeReleaseContext_def equal_range_def
        erase_script_def SwapScriptContext_def Compositum_SwapContext_def
        Registry_SwapContext_def SwapContext_def BeforeSwapContext_def
        DoDelayedDelete_def erase_names_of_context_def one_registry_system_def
        empty_registry_def empty_env_def demo_ids_def script_a_def
        script_a_new_def script_a_again_def Let_def)

subsection \<open>Scripts loaded after the database\<close>

text \<open>
  \<^verbatim>\<open>AddScript\<close> of a script that answers true to \<^verbatim>\<open>IsAfterLoadDB()\<close> never inserts
  into \<^verbatim>\<open>_scripts\<close>, so neither does \<^verbatim>\<open>AddALScripts\<close> for a buffer of such scripts.
\<close>

lemma AddScript_after_load:
  assumes "AddScript dbg gsi script r e = Inr (r1, e1)" "so_after_load_db script"
  shows "scripts r1 = scripts r" "set (alScripts r1) \<subseteq> insert script (set (alScripts r))"
  using assms
  by (auto simp: AddScript_def Let_def ABORT_MSG_def ABORT_def and_then_eq_Inr split: if_splits)

lemma AddScripts_after_load:
  "AddScripts dbg gsi buffered r e = Inr (r1, e1) \<Longrightarrow> list_all so_after_load_db buffered \<Longrightarrow>
     scripts r1 = scripts r"
proof (induction buffered arbitrary: r e)
  case Nil
  then show ?case by simp
next
  case (Cons itr rest)
  from Cons.prems(1) obtain r0 e0 where
    a: "AddScript dbg gsi itr r e = Inr (r0, e0)"
    and b: "AddScripts dbg gsi rest r0 e0 = Inr (r1, e1)"
    by (auto simp: and_then_eq_Inr)
  from Cons.prems(2) have "so_after_load_db itr" "list_all so_after_load_db rest" by simp_all
  from AddScript_after_load(1) [OF a this(1)] Cons.IH [OF b this(2)] show ?case by simp
qed

lemma AddALScripts_registers_nothing:
  assumes "AddALScripts dbg gsi r e = Inr (r1, e1)" "list_all so_after_load_db (alScripts r)"
  shows "scripts r1 = scripts r \<and> alScripts r1 = []"
proof (cases "alScripts r = []")
  case True
  with assms(1) show ?thesis by (simp add: AddALScripts_def)
next
  case False
  with assms(1) obtain r0 e0 where
    loop: "AddScripts dbg gsi (alScripts r) r e = Inr (r0, e0)"
    and r1: "r1 = r0\<lparr>alScripts := []\<rparr>"
    by (auto simp: AddALScripts_def and_then_eq_Inr)
  from AddScripts_after_load [OF loop assms(2)] r1 show ?thesis by simp
qed

text \<open>
  Claim C9, evaluated on the code. \<open>script_al\<close> answers true to
  \<^verbatim>\<open>IsAfterLoadDB()\<close> and its name has an id. \<^verbatim>\<open>AddScript\<close> pushes it onto
  \<^verbatim>\<open>_alScripts\<close> and returns, and the \<^verbatim>\<open>unique_ptr\<close> destroys it on return.
  \<^verbatim>\<open>AddALScripts\<close> calls \<^verbatim>\<open>AddScript\<close> on it, which takes the same branch again:
  after the flush the buffer is empty and the script is not registered.
\<close>

theorem after_load_scripts_never_registered:
  "AddScript False demo_ids script_al (empty_registry NoHooks)
       (SetScriptContext ''___static___'' empty_env)
     = Inr ((empty_registry NoHooks)\<lparr>alScripts := [script_al]\<rparr>,
            (SetScriptContext ''___static___'' empty_env)\<lparr>destroyed := [so_ptr script_al]\<rparr>)
   \<and> AddALScripts False demo_ids ((empty_registry NoHooks)\<lparr>alScripts := [script_al]\<rparr>)
       ((SetScriptContext ''___static___'' empty_env)\<lparr>destroyed := [so_ptr script_al]\<rparr>)
     = Inr (empty_registry NoHooks,
            (SetScriptContext ''___static___'' empty_env)\<lparr>destroyed := [so_ptr script_al, so_ptr script_al]\<rparr>)
   \<and> GetScriptById (empty_registry NoHooks) (demo_ids (so_name script_al)) = None
   \<and> demo_ids (so_name script_al) \<noteq> 0"
  by (simp add: AddALScripts_def AddScript_def demo_ids_def script_al_def empty_registry_def
        empty_env_def SetScriptContext_def GetScriptById_def)

end
